theory Spec2Isabelle
  imports Complex_Main "HOL-Library.Word" "HOL-Library.Signed_Division"
begin

unbundle bit_operations_syntax

section \<open>Errors and the decoder contract (package frame)\<close>

type_synonym u32 = "32 word"
type_synonym bytes = "8 word list"

text \<open>
  Go error values that occur in the two packages. The sentinels made with
  \<^verbatim>\<open>errors.New\<close> are nullary constructors, \<^verbatim>\<open>&decoderError{cause: err}\<close> is
  \<open>decoderError err\<close>, \<^verbatim>\<open>*webcam.Timeout\<close> is \<open>webcam_Timeout\<close>, and any other
  error (of the device library, of a decoder) is an \<open>other_error\<close>, a value with
  neither an \<^verbatim>\<open>Is\<close> nor an \<^verbatim>\<open>Unwrap\<close> method. A nil pointer dereference is not an
  error value in Go but a run-time panic; it is the result \<open>panic_nil_dereference\<close>.
  Go's \<^verbatim>\<open>error\<close> interface, which may be nil, is \<open>error option\<close>.
  Pointer identity of two \<^verbatim>\<open>*decoderError\<close> values is structural equality here.
\<close>

datatype error =
    DecoderError
  | decoderError error
  | errReadTimeout
  | errEmptyFrame
  | io_EOF
  | webcam_Timeout
  | other_error string
  | panic_nil_dereference

text \<open>
  \<^verbatim>\<open>errors.Is(err, target)\<close> of the standard library for two non-nil errors: the
  error equals the target, or its own \<^verbatim>\<open>Is\<close> method accepts the target, or the
  error it unwraps to matches. Only \<^verbatim>\<open>*decoderError\<close> has the two methods:
  \<^verbatim>\<open>Is(target)\<close> is \<^verbatim>\<open>errors.Is(target, DecoderError)\<close> and \<^verbatim>\<open>Unwrap()\<close> is the cause.
\<close>

function errors_Is :: "error \<Rightarrow> error \<Rightarrow> bool" where
  "errors_Is err target =
     (if err = target then True
      else case err of
        decoderError c \<Rightarrow>
          if errors_Is target DecoderError then True else errors_Is c target
      | _ \<Rightarrow> False)"
  by pat_completeness auto
termination
  by (relation "measure (\<lambda>(e, t). size e + size t)") auto

declare errors_Is.simps [simp del]

text \<open>\<^verbatim>\<open>errors.Is\<close> on a possibly nil error and a non-nil target.\<close>

definition errors_Is_nil :: "error option \<Rightarrow> error \<Rightarrow> bool" where
  "errors_Is_nil err target = (case err of None \<Rightarrow> False | Some e \<Rightarrow> errors_Is e target)"

text \<open>\<^verbatim>\<open>errors.Unwrap\<close>: the result of the \<^verbatim>\<open>Unwrap\<close> method, nil without one.\<close>

fun errors_Unwrap :: "error \<Rightarrow> error option" where
  "errors_Unwrap (decoderError c) = Some c"
| "errors_Unwrap _ = None"

text \<open>The method \<^verbatim>\<open>Cause\<close>, which only \<^verbatim>\<open>*decoderError\<close> has.\<close>

fun decoderError_Cause :: "error \<Rightarrow> error option" where
  "decoderError_Cause (decoderError c) = Some c"
| "decoderError_Cause _ = None"

text \<open>
  A release callback: nil, the literal \<^verbatim>\<open>func() {}\<close>, or a callback of the decoder.
  An \<^verbatim>\<open>image.Image\<close> is a value of the type parameter \<open>'i\<close>, or nil (\<open>None\<close>).
\<close>

datatype 'r release = release_nil | release_noop | release_fn 'r

type_synonym ('i, 'r) decoded = "'i option \<times> 'r release \<times> error option"

text \<open>The type \<^verbatim>\<open>decoderFunc\<close>, and the method \<^verbatim>\<open>Decode\<close> of the interface.\<close>

type_synonym ('i, 'r) decoderFunc = "bytes \<Rightarrow> int \<Rightarrow> int \<Rightarrow> ('i, 'r) decoded"

definition decoderFunc_Decode ::
    "('i, 'r) decoderFunc \<Rightarrow> bytes \<Rightarrow> int \<Rightarrow> int \<Rightarrow> ('i, 'r) decoded" where
  "decoderFunc_Decode f frame_bytes width height =
     (case f frame_bytes width height of
        (img, release, err) \<Rightarrow>
          (img, release,
           case err of None \<Rightarrow> None | Some e \<Rightarrow> Some (decoderError e)))"

text \<open>
  \<^verbatim>\<open>decodeMJPEG\<close>. The standard library's \<^verbatim>\<open>jpeg.Decode\<close> is the parameter \<open>jpeg_Decode\<close>;
  the second component of the result is what the call writes to the log (the
  format string of \<^verbatim>\<open>log.Printf\<close>, its arguments left out).
\<close>

definition decodeMJPEG ::
    "(bytes \<Rightarrow> 'i option \<times> error option) \<Rightarrow> bytes \<Rightarrow> int \<Rightarrow> int
       \<Rightarrow> ('i, 'r) decoded \<times> string list" where
  "decodeMJPEG jpeg_Decode frame_bytes width height =
     (case jpeg_Decode frame_bytes of
        (img, err) \<Rightarrow>
          ((img, release_noop, err),
           if err \<noteq> None then [''[MJPEG] Error while decoding frame''] else []))"

section \<open>The V4L2 camera (camera_linux.go): data\<close>

text \<open>
  The canonical frame formats of package frame that the camera names, and any other
  value of the type \<^verbatim>\<open>frame.Format\<close> (\<open>FormatOther\<close>): the type is declared elsewhere
  in package frame, and a Go named type admits values besides its constants.
\<close>

datatype Format =
    FormatI420 | FormatNV21 | FormatNV12 | FormatYUYV | FormatUYVY | FormatMJPEG | FormatZ16
  | FormatOther string

text \<open>
  The native pixel formats are the four-character codes of the kernel header
  \<^verbatim>\<open>linux/videodev2.h\<close>, which the file includes through cgo:
  \<^verbatim>\<open>v4l2_fourcc(a, b, c, d) = a | (b << 8) | (c << 16) | (d << 24)\<close>.
  \<^verbatim>\<open>webcam.PixelFormat\<close> is a \<^verbatim>\<open>uint32\<close>.
\<close>

definition v4l2_fourcc :: "char \<Rightarrow> char \<Rightarrow> char \<Rightarrow> char \<Rightarrow> u32" where
  "v4l2_fourcc a b c d =
     of_char a OR push_bit 8 (of_char b) OR push_bit 16 (of_char c) OR push_bit 24 (of_char d)"

definition V4L2_PIX_FMT_YUV420 :: u32 where
  "V4L2_PIX_FMT_YUV420 = v4l2_fourcc CHR ''Y'' CHR ''U'' CHR ''1'' CHR ''2''"

definition V4L2_PIX_FMT_NV21 :: u32 where
  "V4L2_PIX_FMT_NV21 = v4l2_fourcc CHR ''N'' CHR ''V'' CHR ''2'' CHR ''1''"

definition V4L2_PIX_FMT_NV12 :: u32 where
  "V4L2_PIX_FMT_NV12 = v4l2_fourcc CHR ''N'' CHR ''V'' CHR ''1'' CHR ''2''"

definition V4L2_PIX_FMT_YUYV :: u32 where
  "V4L2_PIX_FMT_YUYV = v4l2_fourcc CHR ''Y'' CHR ''U'' CHR ''Y'' CHR ''V''"

definition V4L2_PIX_FMT_UYVY :: u32 where
  "V4L2_PIX_FMT_UYVY = v4l2_fourcc CHR ''U'' CHR ''Y'' CHR ''V'' CHR ''Y''"

definition V4L2_PIX_FMT_MJPEG :: u32 where
  "V4L2_PIX_FMT_MJPEG = v4l2_fourcc CHR ''M'' CHR ''J'' CHR ''P'' CHR ''G''"

definition V4L2_PIX_FMT_Z16 :: u32 where
  "V4L2_PIX_FMT_Z16 = v4l2_fourcc CHR ''Z'' CHR ''1'' CHR ''6'' CHR '' ''"

definition maxEmptyFrameCount :: nat where
  "maxEmptyFrameCount = 5"

definition supportedResolutions :: "(int \<times> int) list" where
  "supportedResolutions =
     [(320, 240), (640, 480), (768, 576), (800, 600), (1024, 768), (1280, 854),
      (1280, 960), (1280, 1024), (1400, 1050), (1600, 1200), (2048, 1536), (320, 200),
      (800, 480), (854, 480), (1024, 600), (1152, 768), (1280, 720), (1280, 768),
      (1366, 768), (1280, 800), (1440, 900), (1440, 960), (1680, 1050), (1920, 1080),
      (2048, 1080), (1920, 1200), (2560, 1600)]"

text \<open>
  \<^verbatim>\<open>prop.Media\<close>, with the four fields of its embedded \<^verbatim>\<open>prop.Video\<close> that the camera
  reads or writes. Go's \<^verbatim>\<open>int\<close> is an \<open>int\<close> (no arithmetic of the file leaves 64 bits:
  the values come from \<^verbatim>\<open>uint32\<close> fields and from the resolution list); the frame
  rate, a floating-point number only tested against zero, is a \<open>real\<close>.
\<close>

record Media =
  Width :: int
  Height :: int
  FrameFormat :: Format
  FrameRate :: real

text \<open>\<^verbatim>\<open>webcam.FrameSize\<close> of the device library.\<close>

record FrameSize =
  MinWidth :: u32
  MaxWidth :: u32
  StepWidth :: u32
  MinHeight :: u32
  MaxHeight :: u32
  StepHeight :: u32

text \<open>
  The opened device, \<^verbatim>\<open>*webcam.Webcam\<close>, belongs to an external library: it is the
  record of what its methods answer. \<^verbatim>\<open>GetSupportedFormats\<close> returns a Go map; the
  list holds its keys in the order in which \<^verbatim>\<open>range\<close> visits them.
\<close>

record webcam =
  SetImageFormat :: "u32 \<Rightarrow> u32 \<Rightarrow> u32 \<Rightarrow> error + u32 \<times> u32 \<times> u32"
  SetFramerate :: "real \<Rightarrow> error option"
  StartStreaming :: "error option"
  GetSupportedFormats :: "u32 list"
  GetSupportedFrameSizes :: "u32 \<Rightarrow> FrameSize list"

text \<open>
  What an operation does to the outside: the calls on the device, on the cancel function
  of a context and on the decoder, and the lines it logs (the format string of
  \<^verbatim>\<open>c.log\<close>, its arguments left out), in order.
\<close>

datatype event =
    Log string
  | webcam_Open_call string
  | SetBufferCount_call nat
  | SetImageFormat_call u32 u32 u32
  | SetFramerate_call real
  | StartStreaming_call
  | StopStreaming_call
  | webcam_Close_call
  | WaitForFrame_call u32
  | ReadFrame_call
  | cancel_call nat
  | Decode_call bytes int int

text \<open>
  The state outside the camera: the contexts made by \<^verbatim>\<open>context.WithCancel\<close> (context
  \<open>k\<close> is cancelled when \<open>ctxs w k\<close>), the number of the next context, and the events so
  far. The mutex is not part of the model: operations run one after the other, and the
  one effect of a concurrent \<^verbatim>\<open>Close\<close> that can fall inside a read, its call of the
  cancel function before it waits for the lock, is an input of the read loop.
\<close>

record world =
  ctxs :: "nat \<Rightarrow> bool"
  next_ctx :: nat
  trace :: "event list"

text \<open>The struct \<^verbatim>\<open>camera\<close>; \<open>cancel\<close> is the context that \<^verbatim>\<open>c.cancel\<close> cancels, or nil.\<close>

record camera =
  path :: string
  cam :: "webcam option"
  formats :: "u32 \<rightharpoonup> Format"
  reversedFormats :: "Format \<rightharpoonup> u32"
  started :: bool
  cancel :: "nat option"

text \<open>
  The variables that the closure returned by \<^verbatim>\<open>VideoRecord\<close> captures: the context,
  the decoder (its method \<^verbatim>\<open>Decode\<close>), the requested media \<^verbatim>\<open>p\<close>, the read timeout,
  the scratch buffer \<^verbatim>\<open>buf\<close> and the frame counter.
\<close>

record ('i, 'r) reader =
  r_ctx :: nat
  r_decoder :: "('i, 'r) decoderFunc"
  r_p :: Media
  readTimeoutSec :: u32
  buf :: bytes
  nbFrames :: int

text \<open>
  What the device and the other goroutine do during one iteration of the read loop:
  whether a concurrent \<^verbatim>\<open>Close\<close> has called the cancel function before the iteration
  tests the context, what \<^verbatim>\<open>WaitForFrame\<close> returns and what \<^verbatim>\<open>ReadFrame\<close> returns.
\<close>

record env_step =
  st_closing :: bool
  st_wait :: "error option"
  st_read :: "error + bytes"

datatype ('i, 'r) ctl = Return "('i, 'r) decoded" | Continue

section \<open>The V4L2 camera: operations\<close>

definition camera_log :: "world \<Rightarrow> string \<Rightarrow> world" where
  "camera_log w msg = w\<lparr>trace := trace w @ [Log msg]\<rparr>"

definition emit :: "world \<Rightarrow> event \<Rightarrow> world" where
  "emit w e = w\<lparr>trace := trace w @ [e]\<rparr>"

text \<open>The map literal of \<^verbatim>\<open>newCamera\<close>.\<close>

definition formats_literal :: "(u32 \<times> Format) list" where
  "formats_literal =
     [(V4L2_PIX_FMT_YUV420, FormatI420),
      (V4L2_PIX_FMT_NV21, FormatNV21),
      (V4L2_PIX_FMT_NV12, FormatNV12),
      (V4L2_PIX_FMT_YUYV, FormatYUYV),
      (V4L2_PIX_FMT_UYVY, FormatUYVY),
      (V4L2_PIX_FMT_MJPEG, FormatMJPEG),
      (V4L2_PIX_FMT_Z16, FormatZ16)]"

text \<open>
  The loop \<^verbatim>\<open>for k, v := range formats { reversedFormats[v] = k }\<close> over the entries in
  the order \<open>visited\<close>, which Go leaves open.
\<close>

fun reverse_loop :: "(u32 \<times> Format) list \<Rightarrow> (Format \<rightharpoonup> u32) \<Rightarrow> (Format \<rightharpoonup> u32)" where
  "reverse_loop [] reversed = reversed"
| "reverse_loop ((k, v) # rest) reversed = reverse_loop rest (reversed(v \<mapsto> k))"

text \<open>A possible order of \<^verbatim>\<open>range formats\<close>: every entry of the map once.\<close>

definition range_order :: "(u32 \<times> Format) list \<Rightarrow> bool" where
  "range_order visited \<longleftrightarrow> distinct visited \<and> set visited = set formats_literal"

definition newCamera :: "(u32 \<times> Format) list \<Rightarrow> string \<Rightarrow> camera" where
  "newCamera visited device_path =
     \<lparr>path = device_path, cam = None, formats = map_of formats_literal,
      reversedFormats = reverse_loop visited Map.empty, started = False, cancel = None\<rparr>"

text \<open>\<^verbatim>\<open>Open\<close>; \<open>webcam_Open\<close> is the device library's \<^verbatim>\<open>webcam.Open\<close>.\<close>

definition Open ::
    "(string \<Rightarrow> error + webcam) \<Rightarrow> camera \<Rightarrow> world \<Rightarrow> error option \<times> camera \<times> world" where
  "Open webcam_Open c w =
     (let w1 = emit w (webcam_Open_call (path c)) in
      case webcam_Open (path c) of
        Inl err \<Rightarrow> (Some err, c, w1)
      | Inr dev \<Rightarrow>
          (None, c\<lparr>cam := Some dev\<rparr>,
           emit (camera_log w1 ''Camera open'') (SetBufferCount_call 1)))"

definition Close :: "camera \<Rightarrow> world \<Rightarrow> error option \<times> camera \<times> world" where
  "Close c w =
     (case cam c of
        None \<Rightarrow> (None, c, camera_log w ''Closing camera while already closed'')
      | Some dev \<Rightarrow>
          (case (case cancel c of
                   None \<Rightarrow> (c, w)
                 | Some k \<Rightarrow>
                     (let w1 = emit (camera_log w ''Canceling reader'') (cancel_call k);
                          w2 = w1\<lparr>ctxs := (ctxs w1)(k := True)\<rparr>
                      in (c\<lparr>cancel := None\<rparr>, emit w2 StopStreaming_call))) of
             (c1, w3) \<Rightarrow>
               (None, c1, emit (camera_log w3 ''Closing camera'') webcam_Close_call)))"

text \<open>
  \<^verbatim>\<open>VideoRecord\<close>. \<open>NewDecoder\<close> is \<^verbatim>\<open>frame.NewDecoder\<close>, a parameter here,
  and \<open>timeout\<close> is the value of \<^verbatim>\<open>getCameraReadTimeout()\<close>. A key missing from a Go map
  reads as the zero value, here the pixel format 0; \<^verbatim>\<open>uint32(p.Width)\<close> keeps the low 32
  bits. A method of the device called through the nil handle panics.
\<close>

definition VideoRecord ::
    "(Format \<Rightarrow> error + ('i, 'r) decoderFunc) \<Rightarrow> u32 \<Rightarrow> camera \<Rightarrow> Media \<Rightarrow> world
       \<Rightarrow> (error + ('i, 'r) reader) \<times> camera \<times> world" where
  "VideoRecord NewDecoder timeout c p w =
     (let w0 = camera_log w ''Create new recorder for media'' in
      case NewDecoder (FrameFormat p) of
        Inl err \<Rightarrow> (Inl err, c, camera_log w0 ''Error while creating decoder'')
      | Inr decoder \<Rightarrow>
          (let pf = (case reversedFormats c (FrameFormat p) of None \<Rightarrow> 0 | Some x \<Rightarrow> x);
               w1 = camera_log w0 ''Set FrameFormat and size''
           in case cam c of
                None \<Rightarrow> (Inl panic_nil_dereference, c, w1)
              | Some dev \<Rightarrow>
                  (let w2 = emit w1 (SetImageFormat_call pf (word_of_int (Width p))
                                       (word_of_int (Height p)))
                   in case SetImageFormat dev pf (word_of_int (Width p))
                             (word_of_int (Height p)) of
                        Inl err \<Rightarrow>
                          (Inl err, c, camera_log w2 ''Error while setting image format'')
                      | Inr (actualPF, actualWidth, actualHeight) \<Rightarrow>
                          (let w3 = camera_log w2 ''Actual image format'' in
                           case (if FrameRate p > 0
                                 then (SetFramerate dev (FrameRate p),
                                       camera_log (emit w3 (SetFramerate_call (FrameRate p)))
                                         ''Frame Rate'')
                                 else (None, w3)) of
                             (Some err, w4) \<Rightarrow> (Inl err, c, w4)
                           | (None, w4) \<Rightarrow>
                               (let w5 = emit w4 StartStreaming_call in
                                case StartStreaming dev of
                                  Some err \<Rightarrow>
                                    (Inl err, c,
                                     camera_log w5 ''Error while starting streaming'')
                                | None \<Rightarrow>
                                    (let w6 = camera_log (camera_log w5 ''Started streaming'')
                                                ''Read timeout (time to wait for a new frame)'';
                                         k = next_ctx w6;
                                         w7 = w6\<lparr>ctxs := (ctxs w6)(k := False),
                                                 next_ctx := Suc k\<rparr>
                                     in (Inr \<lparr>r_ctx = k, r_decoder = decoder, r_p = p,
                                               readTimeoutSec = timeout, buf = [],
                                               nbFrames = 0\<rparr>,
                                         c\<lparr>cancel := Some k\<rparr>, w7)))))))"

text \<open>
  Go's \<^verbatim>\<open>make([]byte, n)\<close> and \<^verbatim>\<open>copy(dst, src)\<close>: the copy overwrites the first
  \<open>min (len dst) (len src)\<close> bytes of \<open>dst\<close> and returns that number.
\<close>

definition make_bytes :: "nat \<Rightarrow> bytes" where
  "make_bytes n = replicate n 0"

definition go_copy :: "bytes \<Rightarrow> bytes \<Rightarrow> bytes \<times> nat" where
  "go_copy dst src =
     (let n = min (length dst) (length src) in (take n src @ drop n dst, n))"

text \<open>
  One iteration of the loop of the reader: it returns from the call, or continues with
  the next iteration.
\<close>

definition iteration ::
    "env_step \<Rightarrow> ('i, 'r) reader \<times> world \<Rightarrow> ('i, 'r) ctl \<times> ('i, 'r) reader \<times> world" where
  "iteration st s =
     (case s of (rd, w) \<Rightarrow>
      let w0 = (if st_closing st then w\<lparr>ctxs := (ctxs w)(r_ctx rd := True)\<rparr> else w) in
      if ctxs w0 (r_ctx rd) then (Return (None, release_noop, Some io_EOF), rd, w0)
      else
        (let w1 = emit w0 (WaitForFrame_call (readTimeoutSec rd)) in
         case st_wait st of
           Some err \<Rightarrow>
             if err = webcam_Timeout
             then (Return (None, release_noop, Some errReadTimeout), rd,
                   camera_log w1 ''Read timeout, take loo long to receive a frame from camera'')
             else (Return (None, release_noop, Some err), rd,
                   camera_log w1 ''Error while waiting frame'')
         | None \<Rightarrow>
             (let w2 = emit w1 ReadFrame_call in
              case st_read st of
                Inl err \<Rightarrow>
                  (Return (None, release_noop, Some err), rd,
                   camera_log w2 ''Error while reading frame'')
              | Inr b \<Rightarrow>
                  if length b = 0
                  then (Continue, rd, camera_log w2 ''Frame read but was empty'')
                  else
                    (let buf1 = (if length b > length (buf rd) then make_bytes (length b)
                                 else buf rd);
                         (buf2, n) = go_copy buf1 b;
                         nb = nbFrames rd + 1;
                         (nb', w3) = (if nb = 30 * 60 * 2
                                      then (0, camera_log w2 ''frames have been read'')
                                      else (nb, w2));
                         rd' = rd\<lparr>buf := buf2, nbFrames := nb'\<rparr>;
                         w4 = emit w3 (Decode_call (take n buf2) (Width (r_p rd))
                                         (Height (r_p rd)))
                     in case r_decoder rd (take n buf2) (Width (r_p rd)) (Height (r_p rd)) of
                          (img, release, err) \<Rightarrow>
                            if errors_Is_nil err DecoderError then (Continue, rd', w4)
                            else (Return (img, release, err), rd', w4)))))"

text \<open>The loop \<^verbatim>\<open>for i := 0; i < maxEmptyFrameCount; i++\<close> and what follows it.\<close>

function reader_loop ::
    "(nat \<Rightarrow> env_step) \<Rightarrow> nat \<Rightarrow> ('i, 'r) reader \<times> world
       \<Rightarrow> ('i, 'r) decoded \<times> ('i, 'r) reader \<times> world" where
  "reader_loop env i s =
     (if i < maxEmptyFrameCount then
        (case iteration (env i) s of
           (Return r, s') \<Rightarrow> (r, s')
         | (Continue, s') \<Rightarrow> reader_loop env (Suc i) s')
      else
        ((None, release_noop, Some errEmptyFrame), fst s,
         camera_log (snd s) ''Too much consecutive empty undecodable frames''))"
  by pat_completeness auto
termination
  by (relation "measure (\<lambda>(env, i, s). maxEmptyFrameCount - i)") auto

declare reader_loop.simps [simp del]

text \<open>One call of the reader (\<^verbatim>\<open>Read\<close>, the spec's \<open>next()\<close>).\<close>

definition reader_Read ::
    "(nat \<Rightarrow> env_step) \<Rightarrow> ('i, 'r) reader \<Rightarrow> world
       \<Rightarrow> ('i, 'r) decoded \<times> ('i, 'r) reader \<times> world" where
  "reader_Read env rd w = reader_loop env 0 (rd, w)"

text \<open>
  \<^verbatim>\<open>Properties\<close>: the loop over the standard resolutions, the loop over the frame sizes
  of one format and the loop over the formats. \<^verbatim>\<open>int(x)\<close> of a \<^verbatim>\<open>uint32\<close> is its value
  (Go's \<^verbatim>\<open>int\<close> has 64 bits on the platforms meant), and Go's \<^verbatim>\<open>%\<close> truncates
  (\<open>smod\<close>); its divisor is not zero where the loop computes it.
\<close>

fun resolutions_loop ::
    "FrameSize \<Rightarrow> Format \<Rightarrow> (int \<times> int) list \<Rightarrow> Media list \<Rightarrow> Media list" where
  "resolutions_loop frameSize supportedFormat [] properties = properties"
| "resolutions_loop frameSize supportedFormat (supportedResolution # rest) properties =
     (let minWidth = uint (MinWidth frameSize); minHeight = uint (MinHeight frameSize);
          maxWidth = uint (MaxWidth frameSize); maxHeight = uint (MaxHeight frameSize);
          stepWidth = uint (StepWidth frameSize); stepHeight = uint (StepHeight frameSize);
          width = fst supportedResolution; height = snd supportedResolution
      in if width < minWidth \<or> width > maxWidth \<or> height < minHeight \<or> height > maxHeight
         then resolutions_loop frameSize supportedFormat rest properties
         else if (width - minWidth) smod stepWidth \<noteq> 0
                 \<or> (height - minHeight) smod stepHeight \<noteq> 0
         then resolutions_loop frameSize supportedFormat rest properties
         else resolutions_loop frameSize supportedFormat rest
                (properties @ [\<lparr>Width = width, Height = height,
                                 FrameFormat = supportedFormat, FrameRate = 0\<rparr>]))"

fun frameSizes_loop ::
    "(u32 \<rightharpoonup> Format) \<Rightarrow> u32 \<Rightarrow> FrameSize list \<Rightarrow> Media list \<Rightarrow> Media list" where
  "frameSizes_loop fmts format [] properties = properties"
| "frameSizes_loop fmts format (frameSize # rest) properties =
     (case fmts format of
        None \<Rightarrow> frameSizes_loop fmts format rest properties
      | Some supportedFormat \<Rightarrow>
          if StepWidth frameSize = 0 \<or> StepHeight frameSize = 0
          then frameSizes_loop fmts format rest
                 (properties @ [\<lparr>Width = uint (MaxWidth frameSize),
                                  Height = uint (MaxHeight frameSize),
                                  FrameFormat = supportedFormat, FrameRate = 0\<rparr>])
          else frameSizes_loop fmts format rest
                 (resolutions_loop frameSize supportedFormat supportedResolutions properties))"

fun formats_loop ::
    "(u32 \<rightharpoonup> Format) \<Rightarrow> webcam \<Rightarrow> u32 list \<Rightarrow> Media list \<Rightarrow> Media list" where
  "formats_loop fmts dev [] properties = properties"
| "formats_loop fmts dev (format # rest) properties =
     formats_loop fmts dev rest
       (frameSizes_loop fmts format (GetSupportedFrameSizes dev format) properties)"

definition Properties :: "camera \<Rightarrow> error + Media list" where
  "Properties c =
     (case cam c of
        None \<Rightarrow> Inl panic_nil_dereference
      | Some dev \<Rightarrow> Inr (formats_loop (formats c) dev (GetSupportedFormats dev) []))"

text \<open>A sequence of calls of the reader, one after the other, the results dropped.\<close>

fun reader_Reads ::
    "(nat \<Rightarrow> env_step) list \<Rightarrow> ('i, 'r) reader \<times> world \<Rightarrow> ('i, 'r) reader \<times> world" where
  "reader_Reads [] s = s"
| "reader_Reads (env # envs) s = reader_Reads envs (snd (reader_Read env (fst s) (snd s)))"

section \<open>Vocabulary of the properties\<close>

text \<open>Two states of the closure that differ at most in the scratch buffer and the counter.\<close>

definition same_closure :: "('i, 'r) reader \<Rightarrow> ('i, 'r) reader \<Rightarrow> bool" where
  "same_closure rd rd' \<longleftrightarrow>
     r_ctx rd' = r_ctx rd \<and> r_decoder rd' = r_decoder rd \<and> r_p rd' = r_p rd
     \<and> readTimeoutSec rd' = readTimeoutSec rd"

text \<open>The wait and the read succeed and the buffer read is empty.\<close>

definition empty_step :: "env_step \<Rightarrow> bool" where
  "empty_step st \<longleftrightarrow> \<not> st_closing st \<and> st_wait st = None \<and> st_read st = Inr []"

text \<open>
  The wait and the read succeed, the buffer read is not empty and its decoding fails with
  an error that \<^verbatim>\<open>errors.Is\<close> classifies as a \<^verbatim>\<open>DecoderError\<close>.
\<close>

definition undecodable_step :: "('i, 'r) reader \<Rightarrow> env_step \<Rightarrow> bool" where
  "undecodable_step rd st \<longleftrightarrow>
     \<not> st_closing st \<and> st_wait st = None \<and>
     (case st_read st of
        Inl err \<Rightarrow> False
      | Inr b \<Rightarrow>
          b \<noteq> [] \<and>
          errors_Is_nil (snd (snd (r_decoder rd b (Width (r_p rd)) (Height (r_p rd)))))
            DecoderError)"

definition retry_step :: "('i, 'r) reader \<Rightarrow> env_step \<Rightarrow> bool" where
  "retry_step rd st \<longleftrightarrow> empty_step st \<or> undecodable_step rd st"

text \<open>
  The wait and the read succeed, the buffer read is \<open>b\<close>, not empty, and the decoder
  turns it into the image \<open>img\<close> with the callback \<open>rel\<close> and no error.
\<close>

definition decodable_step ::
    "('i, 'r) reader \<Rightarrow> env_step \<Rightarrow> bytes \<Rightarrow> 'i option \<Rightarrow> 'r release \<Rightarrow> bool" where
  "decodable_step rd st b img rel \<longleftrightarrow>
     \<not> st_closing st \<and> st_wait st = None \<and> st_read st = Inr b \<and> b \<noteq> [] \<and>
     r_decoder rd b (Width (r_p rd)) (Height (r_p rd)) = (img, rel, None)"

text \<open>The events of an iteration that reads a non-empty buffer, before it decodes.\<close>

definition read_events :: "('i, 'r) reader \<Rightarrow> event list" where
  "read_events rd =
     [WaitForFrame_call (readTimeoutSec rd), ReadFrame_call]
     @ (if nbFrames rd + 1 = 3600 then [Log ''frames have been read''] else [])"

text \<open>The width and height of every call of the decoder among some events.\<close>

fun decode_args :: "event list \<Rightarrow> (int \<times> int) list" where
  "decode_args [] = []"
| "decode_args (Decode_call b width height # es) = (width, height) # decode_args es"
| "decode_args (e # es) = decode_args es"

text \<open>The events that happened between the state \<open>w\<close> and the later state \<open>w'\<close>.\<close>

definition events_since :: "world \<Rightarrow> world \<Rightarrow> event list" where
  "events_since w w' = drop (length (trace w)) (trace w')"

text \<open>
  The test of the spec on a standard resolution for a stepped range: each of the width
  and the height lies between the minimum and the maximum and is a multiple of the step
  away from the minimum.
\<close>

definition spec_accepts :: "FrameSize \<Rightarrow> int \<times> int \<Rightarrow> bool" where
  "spec_accepts fs r \<longleftrightarrow>
     uint (MinWidth fs) \<le> fst r \<and> fst r \<le> uint (MaxWidth fs) \<and>
     uint (MinHeight fs) \<le> snd r \<and> snd r \<le> uint (MaxHeight fs) \<and>
     (fst r - uint (MinWidth fs)) mod uint (StepWidth fs) = 0 \<and>
     (snd r - uint (MinHeight fs)) mod uint (StepHeight fs) = 0"

definition descriptor :: "Format \<Rightarrow> int \<times> int \<Rightarrow> Media" where
  "descriptor f r = \<lparr>Width = fst r, Height = snd r, FrameFormat = f, FrameRate = 0\<rparr>"

text \<open>
  The descriptors the spec gives one frame-size entry of a native format: none when the
  format is not in the table, one for a fixed size, the accepted standard resolutions in
  the order of the list for a stepped range.
\<close>

definition spec_entry_descriptors :: "(u32 \<rightharpoonup> Format) \<Rightarrow> u32 \<Rightarrow> FrameSize \<Rightarrow> Media list" where
  "spec_entry_descriptors fmts format fs =
     (case fmts format of
        None \<Rightarrow> []
      | Some f \<Rightarrow>
          if StepWidth fs = 0 \<or> StepHeight fs = 0
          then [descriptor f (uint (MaxWidth fs), uint (MaxHeight fs))]
          else map (descriptor f) (filter (spec_accepts fs) supportedResolutions))"

text \<open>
  The effect of a piece of the reader on the closure and the events: the captured values
  stay, the scratch buffer does not shrink, the contexts are counted as before, and the
  events are extended by events whose decoder calls all have the requested size.
\<close>

definition keeps :: "('i, 'r) reader \<times> world \<Rightarrow> ('i, 'r) reader \<times> world \<Rightarrow> bool" where
  "keeps s s' \<longleftrightarrow>
     same_closure (fst s) (fst s') \<and> length (buf (fst s)) \<le> length (buf (fst s'))
     \<and> next_ctx (snd s') = next_ctx (snd s)
     \<and> (\<exists>evs. trace (snd s') = trace (snd s) @ evs
            \<and> set (decode_args evs) \<subseteq> {(Width (r_p (fst s)), Height (r_p (fst s)))})"

section \<open>A simulated device\<close>

text \<open>
  A decoder behind \<^verbatim>\<open>decoderFunc\<close> that rejects a buffer starting with a zero byte, and
  whose image is the length of the buffer.
\<close>

definition sim_decode :: "(nat, nat) decoderFunc" where
  "sim_decode b width height =
     (case b of
        [] \<Rightarrow> (None, release_nil, Some (other_error ''short buffer''))
      | x # xs \<Rightarrow>
          if x = 0 then (None, release_nil, Some (other_error ''bad marker''))
          else (Some (length b), release_fn 7, None))"

definition sim_NewDecoder :: "Format \<Rightarrow> error + (nat, nat) decoderFunc" where
  "sim_NewDecoder f = Inr (decoderFunc_Decode sim_decode)"

definition sim_jpeg_Decode :: "bytes \<Rightarrow> nat option \<times> error option" where
  "sim_jpeg_Decode b =
     (if take 2 b = [255, 216] then (Some (length b), None)
      else (None, Some (other_error ''invalid JPEG format: missing SOI marker'')))"

text \<open>
  A device that answers every request for a format with YUYV at 320 by 240, reports
  MJPEG at the fixed size 640 by 480, a format unknown to the table, and YUYV from
  320 by 240 to 800 by 600 in steps of 160 by 120.
\<close>

definition sim_frame_sizes :: "u32 \<Rightarrow> FrameSize list" where
  "sim_frame_sizes format =
     (if format = V4L2_PIX_FMT_YUYV
      then [\<lparr>MinWidth = 320, MaxWidth = 800, StepWidth = 160,
              MinHeight = 240, MaxHeight = 600, StepHeight = 120\<rparr>]
      else [\<lparr>MinWidth = 640, MaxWidth = 640, StepWidth = 0,
              MinHeight = 480, MaxHeight = 480, StepHeight = 0\<rparr>])"

definition sim_webcam :: webcam where
  "sim_webcam =
     \<lparr>SetImageFormat = (\<lambda>pf width height. Inr (V4L2_PIX_FMT_YUYV, 320, 240)),
      SetFramerate = (\<lambda>rate. None),
      StartStreaming = None,
      GetSupportedFormats = [V4L2_PIX_FMT_MJPEG, 7, V4L2_PIX_FMT_YUYV],
      GetSupportedFrameSizes = sim_frame_sizes\<rparr>"

definition sim_webcam_Open :: "string \<Rightarrow> error + webcam" where
  "sim_webcam_Open device_path = Inr sim_webcam"

definition sim_world :: world where
  "sim_world = \<lparr>ctxs = (\<lambda>k. False), next_ctx = 0, trace = []\<rparr>"

definition sim_camera :: camera where
  "sim_camera = (newCamera formats_literal ''/dev/video0'')\<lparr>cam := Some sim_webcam\<rparr>"

definition sim_media :: Media where
  "sim_media = \<lparr>Width = 640, Height = 480, FrameFormat = FormatMJPEG, FrameRate = 30\<rparr>"

definition sim_reader :: "(nat, nat) reader" where
  "sim_reader =
     \<lparr>r_ctx = 0, r_decoder = decoderFunc_Decode sim_decode, r_p = sim_media,
      readTimeoutSec = 5, buf = [], nbFrames = 0\<rparr>"

text \<open>A \<^verbatim>\<open>frame.NewDecoder\<close> that supports no format.\<close>

definition sim_NewDecoder_none :: "Format \<Rightarrow> error + (nat, nat) decoderFunc" where
  "sim_NewDecoder_none f = Inl (other_error ''format is not supported'')"

text \<open>The recording of the simulated camera, started on the fresh state.\<close>

definition sim_started :: "(error + (nat, nat) reader) \<times> camera \<times> world" where
  "sim_started = VideoRecord sim_NewDecoder 5 sim_camera sim_media sim_world"

text \<open>A request for a canonical format that the map literal does not name.\<close>

definition sim_unregistered :: Media where
  "sim_unregistered = sim_media\<lparr>FrameFormat := FormatOther ''I444''\<rparr>"

text \<open>Opening the simulated camera, closing it, and closing it again.\<close>

definition sim_opened :: "error option \<times> camera \<times> world" where
  "sim_opened = Open sim_webcam_Open (newCamera formats_literal ''/dev/video0'') sim_world"

definition sim_closed :: "error option \<times> camera \<times> world" where
  "sim_closed = Close (fst (snd sim_opened)) (snd (snd sim_opened))"

definition sim_closed_twice :: "error option \<times> camera \<times> world" where
  "sim_closed_twice = Close (fst (snd sim_closed)) (snd (snd sim_closed))"

text \<open>The device hands out the buffers \<open>reads\<close> one per iteration, then empty ones.\<close>

definition sim_reads :: "bytes list \<Rightarrow> nat \<Rightarrow> env_step" where
  "sim_reads reads i =
     \<lparr>st_closing = False, st_wait = None,
      st_read = Inr (if i < length reads then reads ! i else [])\<rparr>"

text \<open>The same, with \<^verbatim>\<open>Close\<close> cancelling the context before iteration \<open>k\<close>.\<close>

definition sim_closing_at :: "nat \<Rightarrow> bytes list \<Rightarrow> nat \<Rightarrow> env_step" where
  "sim_closing_at k reads i = (sim_reads reads i)\<lparr>st_closing := (i = k)\<rparr>"

section \<open>Decoder contract: properties\<close>

lemma errors_Is_refl: "errors_Is e e"
  by (subst errors_Is.simps) simp

lemma errors_Is_decoderError: "errors_Is (decoderError c) DecoderError"
  by (subst errors_Is.simps) (simp add: errors_Is_refl)

lemma errors_Is_DecoderError_iff:
  "errors_Is e DecoderError \<longleftrightarrow> e = DecoderError \<or> (\<exists>c. e = decoderError c)"
  by (subst errors_Is.simps) (auto simp: errors_Is_refl split: error.splits)

lemma errors_Is_other: "\<not> errors_Is (other_error m) DecoderError"
  by (simp add: errors_Is_DecoderError_iff)

text \<open>
  C8. Whatever the wrapped function returns for a buffer, a width and a height,
  \<^verbatim>\<open>Decode\<close> passes the image and the release callback through unchanged. When the
  function returns no error, neither does \<^verbatim>\<open>Decode\<close>. When it returns an error,
  \<^verbatim>\<open>Decode\<close> returns a typed decode error around it: \<^verbatim>\<open>errors.Is(err, DecoderError)\<close>
  holds and both \<^verbatim>\<open>Unwrap\<close> and \<^verbatim>\<open>Cause\<close> give back the original error. The MJPEG
  decoder behind \<^verbatim>\<open>Decode\<close> returns what \<^verbatim>\<open>jpeg.Decode\<close> returns, with the empty release
  callback, its error wrapped, and logs one diagnostic exactly when there is an error.
  No branch of either function panics.
\<close>

theorem decoder_contract:
  fixes f :: "('i, 'r) decoderFunc"
    and jpeg_Decode :: "bytes \<Rightarrow> 'i option \<times> error option"
  assumes "f b width height = (img, rel, err)"
    and "jpeg_Decode b = (jimg, jerr)"
  shows "(err = None \<longrightarrow> decoderFunc_Decode f b width height = (img, rel, None))
       \<and> (\<forall>cause. err = Some cause \<longrightarrow>
            (\<exists>e. decoderFunc_Decode f b width height = (img, rel, Some e)
                 \<and> errors_Is e DecoderError
                 \<and> errors_Unwrap e = Some cause
                 \<and> decoderError_Cause e = Some cause))
       \<and> decoderFunc_Decode (\<lambda>x y z. fst (decodeMJPEG jpeg_Decode x y z)) b width height
           = (jimg, release_noop :: 'r release, map_option decoderError jerr)
       \<and> snd (decodeMJPEG jpeg_Decode b width height :: ('i, 'r) decoded \<times> string list)
           = (if jerr = None then [] else [''[MJPEG] Error while decoding frame''])"
  using assms
  by (cases jerr) (simp_all add: decoderFunc_Decode_def decodeMJPEG_def errors_Is_decoderError)

theorem decoder_contract_witness:
  "decoderFunc_Decode sim_decode [1, 2, 3] 640 480 = (Some 3, release_fn 7, None)
   \<and> (\<exists>e. decoderFunc_Decode sim_decode [0, 2, 3] 640 480 = (None, release_nil, Some e)
          \<and> errors_Is e DecoderError
          \<and> errors_Unwrap e = Some (other_error ''bad marker'')
          \<and> decoderError_Cause e = Some (other_error ''bad marker''))
   \<and> decoderFunc_Decode (\<lambda>x y z. fst (decodeMJPEG sim_jpeg_Decode x y z)) [0, 2, 3] 640 480
       = (None, release_noop :: nat release,
          Some (decoderError (other_error ''invalid JPEG format: missing SOI marker'')))
   \<and> snd (decodeMJPEG sim_jpeg_Decode [0, 2, 3] 640 480 :: (nat, nat) decoded \<times> string list)
       = [''[MJPEG] Error while decoding frame'']"
  using decoder_contract [of sim_decode "[1, 2, 3]" 640 480 "Some 3" "release_fn 7" None
          sim_jpeg_Decode None "Some (other_error ''invalid JPEG format: missing SOI marker'')"]
        decoder_contract [of sim_decode "[0, 2, 3]" 640 480 None release_nil
          "Some (other_error ''bad marker'')"
          sim_jpeg_Decode None "Some (other_error ''invalid JPEG format: missing SOI marker'')"]
  by (simp add: sim_decode_def sim_jpeg_Decode_def)

section \<open>The read loop: properties\<close>

lemma go_copy_grown:
  "go_copy (if length b > length old then make_bytes (length b) else old) b
     = (b @ drop (length b) old, length b)"
  by (simp add: go_copy_def make_bytes_def Let_def min_def)

lemma iteration_cancelled:
  "st_closing st \<or> ctxs w (r_ctx rd) \<Longrightarrow>
     fst (iteration st (rd, w)) = Return (None, release_noop, Some io_EOF)"
  by (auto simp: iteration_def)

lemma iteration_nonempty:
  assumes "\<not> st_closing st" "\<not> ctxs w (r_ctx rd)" "st_wait st = None"
    and "st_read st = Inr b" "b \<noteq> []"
    and "r_decoder rd b (Width (r_p rd)) (Height (r_p rd)) = (img, rel, err)"
  shows "iteration st (rd, w) =
           (if errors_Is_nil err DecoderError then Continue else Return (img, rel, err),
            rd\<lparr>buf := b @ drop (length b) (buf rd),
               nbFrames := (if nbFrames rd + 1 = 3600 then 0 else nbFrames rd + 1)\<rparr>,
            w\<lparr>trace := trace w @ read_events rd
                 @ [Decode_call b (Width (r_p rd)) (Height (r_p rd))]\<rparr>)"
  using assms
  by (simp add: iteration_def go_copy_grown emit_def camera_log_def Let_def read_events_def
           split: prod.splits)

lemma iteration_empty:
  assumes "empty_step st" "\<not> ctxs w (r_ctx rd)"
  shows "iteration st (rd, w) =
           (Continue, rd,
            w\<lparr>trace := trace w @ [WaitForFrame_call (readTimeoutSec rd), ReadFrame_call,
                                   Log ''Frame read but was empty'']\<rparr>)"
  using assms
  by (simp add: empty_step_def iteration_def emit_def camera_log_def Let_def)

lemma iteration_undecodable:
  assumes "undecodable_step rd st" "\<not> ctxs w (r_ctx rd)"
  shows "\<exists>rd' w'. iteration st (rd, w) = (Continue, rd', w') \<and> same_closure rd rd'
           \<and> ctxs w' = ctxs w"
proof -
  from assms(1) obtain b where rb: "st_read st = Inr b" and ne: "b \<noteq> []"
    by (auto simp: undecodable_step_def split: sum.splits)
  obtain img rel err
    where d: "r_decoder rd b (Width (r_p rd)) (Height (r_p rd)) = (img, rel, err)"
    by (cases "r_decoder rd b (Width (r_p rd)) (Height (r_p rd))") auto
  from assms(1) rb d have cl: "\<not> st_closing st" and wt: "st_wait st = None"
    and e: "errors_Is_nil err DecoderError"
    by (simp_all add: undecodable_step_def)
  show ?thesis
    by (simp add: iteration_nonempty [OF cl assms(2) wt rb ne d] e same_closure_def)
qed

lemma iteration_retry:
  assumes "retry_step rd st" "\<not> ctxs w (r_ctx rd)"
  shows "\<exists>rd' w'. iteration st (rd, w) = (Continue, rd', w') \<and> same_closure rd rd'
           \<and> ctxs w' = ctxs w"
  using assms iteration_undecodable [of rd st w]
  by (auto simp: retry_step_def iteration_empty same_closure_def)

lemma retry_step_cong: "same_closure rd rd' \<Longrightarrow> retry_step rd' st = retry_step rd st"
  by (auto simp: retry_step_def undecodable_step_def same_closure_def split: sum.splits)

lemma same_closure_trans: "same_closure a b \<Longrightarrow> same_closure b c \<Longrightarrow> same_closure a c"
  by (simp add: same_closure_def)

lemma reader_loop_retries:
  assumes "i + k \<le> maxEmptyFrameCount"
    and "\<forall>j<k. retry_step rd (env (i + j))"
    and "\<not> ctxs w (r_ctx rd)"
  shows "\<exists>rd' w'. reader_loop env i (rd, w) = reader_loop env (i + k) (rd', w')
           \<and> same_closure rd rd' \<and> ctxs w' = ctxs w"
  using assms
proof (induction k arbitrary: i rd w)
  case 0
  then show ?case by (auto simp: same_closure_def)
next
  case (Suc k)
  from Suc.prems have lt: "i < maxEmptyFrameCount" by simp
  from Suc.prems have "retry_step rd (env (i + 0))" by blast
  then have r0: "retry_step rd (env i)" by simp
  from iteration_retry [OF r0 Suc.prems(3)]
  obtain rd1 w1 where it: "iteration (env i) (rd, w) = (Continue, rd1, w1)"
    and sc: "same_closure rd rd1" and cx: "ctxs w1 = ctxs w" by blast
  have step: "reader_loop env i (rd, w) = reader_loop env (Suc i) (rd1, w1)"
    by (subst reader_loop.simps) (simp add: lt it)
  have a: "Suc i + k \<le> maxEmptyFrameCount" using Suc.prems by simp
  have b: "\<forall>j<k. retry_step rd1 (env (Suc i + j))"
  proof (intro allI impI)
    fix j assume "j < k"
    then have "Suc j < Suc k" by simp
    with Suc.prems(2) have "retry_step rd (env (i + Suc j))" by blast
    then show "retry_step rd1 (env (Suc i + j))"
      by (simp add: retry_step_cong [OF sc])
  qed
  have c: "\<not> ctxs w1 (r_ctx rd1)"
    using Suc.prems(3) sc cx by (simp add: same_closure_def)
  from Suc.IH [OF a b c]
  obtain rd' w' where
    "reader_loop env (Suc i) (rd1, w1) = reader_loop env (Suc i + k) (rd', w')"
    "same_closure rd1 rd'" "ctxs w' = ctxs w1" by blast
  with step sc cx show ?case
    by (auto intro: same_closure_trans)
qed

lemma reader_loop_exhausted:
  "fst (reader_loop env maxEmptyFrameCount s) = (None, release_noop, Some errEmptyFrame)"
  by (subst reader_loop.simps) simp

lemma reader_loop_decodable:
  assumes "i < maxEmptyFrameCount" "decodable_step rd (env i) b img rel"
    and "\<not> ctxs w (r_ctx rd)"
  shows "fst (reader_loop env i (rd, w)) = (img, rel, None)"
proof -
  from assms(2) have cl: "\<not> st_closing (env i)" and wt: "st_wait (env i) = None"
    and rb: "st_read (env i) = Inr b" and ne: "b \<noteq> []"
    and d: "r_decoder rd b (Width (r_p rd)) (Height (r_p rd)) = (img, rel, None)"
    by (simp_all add: decodable_step_def)
  show ?thesis
    by (subst reader_loop.simps)
       (simp add: assms(1) iteration_nonempty [OF cl assms(3) wt rb ne d] errors_Is_nil_def)
qed

lemma reader_loop_cancelled:
  assumes "i < maxEmptyFrameCount" "st_closing (env i) \<or> ctxs w (r_ctx rd)"
  shows "fst (reader_loop env i (rd, w)) = (None, release_noop, Some io_EOF)"
  using iteration_cancelled [OF assms(2)] assms(1)
  by (subst reader_loop.simps) (auto split: prod.splits ctl.splits)

text \<open>Retries, then a decodable frame; retries, then a cancellation; only retries.\<close>

lemma Read_retries_then_decodable:
  assumes "\<not> ctxs w (r_ctx rd)" "k < maxEmptyFrameCount"
    and "\<forall>j<k. retry_step rd (env j)" "decodable_step rd (env k) b img rel"
  shows "fst (reader_Read env rd w) = (img, rel, None)"
proof -
  from assms(2) have le: "0 + k \<le> maxEmptyFrameCount" by simp
  from assms(3) have r: "\<forall>j<k. retry_step rd (env (0 + j))" by simp
  from reader_loop_retries [OF le r assms(1)]
  obtain rd' w' where eq: "reader_loop env 0 (rd, w) = reader_loop env k (rd', w')"
    and sc: "same_closure rd rd'" and cx: "ctxs w' = ctxs w" by auto
  from sc assms(4) have d: "decodable_step rd' (env k) b img rel"
    by (simp add: decodable_step_def same_closure_def)
  from sc cx assms(1) have nc: "\<not> ctxs w' (r_ctx rd')" by (simp add: same_closure_def)
  show ?thesis
    by (simp add: reader_Read_def eq reader_loop_decodable [where i = k and env = env, OF assms(2) d nc])
qed

lemma Read_retries_then_cancelled:
  assumes "\<not> ctxs w (r_ctx rd)" "k < maxEmptyFrameCount"
    and "\<forall>j<k. retry_step rd (env j)" "st_closing (env k)"
  shows "fst (reader_Read env rd w) = (None, release_noop, Some io_EOF)"
proof -
  from assms(2) have le: "0 + k \<le> maxEmptyFrameCount" by simp
  from assms(3) have r: "\<forall>j<k. retry_step rd (env (0 + j))" by simp
  from reader_loop_retries [OF le r assms(1)]
  obtain rd' w' where eq: "reader_loop env 0 (rd, w) = reader_loop env k (rd', w')"
    by auto
  show ?thesis
    by (simp add: reader_Read_def eq reader_loop_cancelled [where i = k and env = env, OF assms(2)] assms(4))
qed

lemma Read_only_retries:
  assumes "\<not> ctxs w (r_ctx rd)" "\<forall>j<maxEmptyFrameCount. retry_step rd (env j)"
  shows "fst (reader_Read env rd w) = (None, release_noop, Some errEmptyFrame)"
proof -
  have le: "0 + maxEmptyFrameCount \<le> maxEmptyFrameCount" by simp
  from assms(2) have r: "\<forall>j<maxEmptyFrameCount. retry_step rd (env (0 + j))" by simp
  from reader_loop_retries [OF le r assms(1)]
  obtain rd' w' where
    eq: "reader_loop env 0 (rd, w) = reader_loop env maxEmptyFrameCount (rd', w')"
    by auto
  show ?thesis
    by (simp add: reader_Read_def eq reader_loop_exhausted)
qed

text \<open>
  C1. In one call of the reader on a session that is not cancelled, the loop makes at
  most \<^verbatim>\<open>maxEmptyFrameCount\<close>, that is 5, iterations. When the first \<open>k\<close> reads, for any
  \<open>k\<close> below 5 (so also for 4), succeed with an empty buffer and the next read returns a
  non-empty buffer that the decoder accepts, the call returns that decoded image and its
  release callback with no error. When all 5 reads succeed with an empty buffer, the call
  returns the error \<^verbatim>\<open>errEmptyFrame\<close>, the one value the code has for an exhausted budget.
\<close>

theorem empty_frame_retry_bound:
  assumes "\<not> ctxs w (r_ctx rd)"
  shows "maxEmptyFrameCount = 5
       \<and> (k < maxEmptyFrameCount \<and> (\<forall>j<k. empty_step (env j))
            \<and> decodable_step rd (env k) b img rel
          \<longrightarrow> fst (reader_Read env rd w) = (img, rel, None))
       \<and> ((\<forall>j<maxEmptyFrameCount. empty_step (env j))
          \<longrightarrow> fst (reader_Read env rd w) = (None, release_noop, Some errEmptyFrame))"
  using Read_retries_then_decodable [OF assms, of k env b img rel]
        Read_only_retries [OF assms, of env]
  by (simp add: retry_step_def maxEmptyFrameCount_def)

lemma sim_not_cancelled: "\<not> ctxs sim_world (r_ctx sim_reader)"
  by (simp add: sim_world_def)

lemma sim_reads_empty: "i \<noteq> 4 \<Longrightarrow> empty_step (sim_reads [[], [], [], [], x] i)"
  by (simp add: sim_reads_def empty_step_def nth_Cons' )

theorem empty_frame_retry_bound_witness:
  "fst (reader_Read (sim_reads [[], [], [], [], [9, 8, 7]]) sim_reader sim_world)
     = (Some 3, release_fn 7, None)
   \<and> fst (reader_Read (sim_reads [[], [], [], [], []]) sim_reader sim_world)
     = (None, release_noop, Some errEmptyFrame)"
proof -
  have d: "decodable_step sim_reader (sim_reads [[], [], [], [], [9, 8, 7]] 4) [9, 8, 7]
             (Some 3) (release_fn 7)"
    by (simp add: decodable_step_def sim_reads_def sim_reader_def decoderFunc_Decode_def
          sim_decode_def)
  have e5: "empty_step (sim_reads [[], [], [], [], []] 4)"
    by (simp add: sim_reads_def empty_step_def)
  have k: "4 < maxEmptyFrameCount"
    by (simp add: maxEmptyFrameCount_def)
  show ?thesis
    using empty_frame_retry_bound [OF sim_not_cancelled, of 4
            "sim_reads [[], [], [], [], [9, 8, 7]]" "[9, 8, 7]" "Some 3" "release_fn 7"]
          empty_frame_retry_bound [OF sim_not_cancelled, of 4
            "sim_reads [[], [], [], [], []]" "[9, 8, 7]" "Some 3" "release_fn 7"]
          d e5 k sim_reads_empty
    by (metis less_irrefl_nat)
qed

text \<open>
  C2. In one call of the reader on a session that is not cancelled, a read of a non-empty
  buffer whose decoding fails with an error that \<^verbatim>\<open>errors.Is\<close> matches with
  \<^verbatim>\<open>DecoderError\<close> does not end the call: the loop goes on, and such reads share the
  budget of 5 iterations with the empty reads. So when the decoder fails on the first
  buffer and accepts the second, the call returns the second image with no error; the
  same holds after any \<open>k\<close> below 5 empty or undecodable reads in any order; and 5 of them
  end the call with \<^verbatim>\<open>errEmptyFrame\<close>.
\<close>

theorem decode_error_retry:
  assumes "\<not> ctxs w (r_ctx rd)"
  shows "(undecodable_step rd (env 0) \<and> decodable_step rd (env 1) b img rel
          \<longrightarrow> fst (reader_Read env rd w) = (img, rel, None))
       \<and> (k < maxEmptyFrameCount
            \<and> (\<forall>j<k. empty_step (env j) \<or> undecodable_step rd (env j))
            \<and> decodable_step rd (env k) b img rel
          \<longrightarrow> fst (reader_Read env rd w) = (img, rel, None))
       \<and> ((\<forall>j<maxEmptyFrameCount. empty_step (env j) \<or> undecodable_step rd (env j))
          \<longrightarrow> fst (reader_Read env rd w) = (None, release_noop, Some errEmptyFrame))"
proof (intro conjI impI)
  assume a: "undecodable_step rd (env 0) \<and> decodable_step rd (env 1) b img rel"
  have one: "1 < maxEmptyFrameCount" by (simp add: maxEmptyFrameCount_def)
  from a have r: "\<forall>j<1. retry_step rd (env j)" by (simp add: retry_step_def)
  from a have d: "decodable_step rd (env 1) b img rel" by simp
  show "fst (reader_Read env rd w) = (img, rel, None)"
    by (rule Read_retries_then_decodable [OF assms one r d])
next
  assume a: "k < maxEmptyFrameCount
      \<and> (\<forall>j<k. empty_step (env j) \<or> undecodable_step rd (env j))
      \<and> decodable_step rd (env k) b img rel"
  then have r: "\<forall>j<k. retry_step rd (env j)" by (simp add: retry_step_def)
  from a show "fst (reader_Read env rd w) = (img, rel, None)"
    using Read_retries_then_decodable [OF assms _ r] by blast
next
  assume "\<forall>j<maxEmptyFrameCount. empty_step (env j) \<or> undecodable_step rd (env j)"
  then have r: "\<forall>j<maxEmptyFrameCount. retry_step rd (env j)" by (simp add: retry_step_def)
  show "fst (reader_Read env rd w) = (None, release_noop, Some errEmptyFrame)"
    by (rule Read_only_retries [OF assms r])
qed

theorem decode_error_retry_witness:
  "fst (reader_Read (sim_reads [[0, 1], [5, 6, 7, 8]]) sim_reader sim_world)
     = (Some 4, release_fn 7, None)"
proof -
  have u: "undecodable_step sim_reader (sim_reads [[0, 1], [5, 6, 7, 8]] 0)"
    by (simp add: undecodable_step_def sim_reads_def sim_reader_def decoderFunc_Decode_def
          sim_decode_def errors_Is_nil_def errors_Is_decoderError)
  have d: "decodable_step sim_reader (sim_reads [[0, 1], [5, 6, 7, 8]] 1) [5, 6, 7, 8]
             (Some 4) (release_fn 7)"
    by (simp add: decodable_step_def sim_reads_def sim_reader_def decoderFunc_Decode_def
          sim_decode_def)
  show ?thesis
    using decode_error_retry [OF sim_not_cancelled, of "sim_reads [[0, 1], [5, 6, 7, 8]]"
            "[5, 6, 7, 8]" "Some 4" "release_fn 7" 0] u d
    by blast
qed

section \<open>Close and cancellation\<close>

lemma Close_cancels:
  assumes "cam c \<noteq> None" "cancel c = Some k"
  shows "ctxs (snd (snd (Close c w))) k"
  using assms by (auto simp: Close_def emit_def camera_log_def Let_def)

text \<open>
  C7. A call of the reader returns \<^verbatim>\<open>io.EOF\<close>, with a nil image, when the context of
  the session is cancelled at the start of the call; when \<^verbatim>\<open>Close\<close> cancels it before the
  test at the top of a later iteration, the earlier iterations having all continued the
  loop (empty or undecodable reads); and, \<^verbatim>\<open>Close\<close> being what cancels, on every call
  that follows a \<^verbatim>\<open>Close\<close> of the opened camera whose cancel function belongs to the
  session.
\<close>

theorem cancelled_read_is_EOF:
  "(ctxs w (r_ctx rd)
     \<longrightarrow> fst (reader_Read env rd w) = (None, release_noop, Some io_EOF))
   \<and> (\<not> ctxs w (r_ctx rd) \<and> k < maxEmptyFrameCount \<and> (\<forall>j<k. retry_step rd (env j))
        \<and> st_closing (env k)
      \<longrightarrow> fst (reader_Read env rd w) = (None, release_noop, Some io_EOF))
   \<and> (cam c \<noteq> None \<and> cancel c = Some (r_ctx rd)
      \<longrightarrow> fst (reader_Read env rd (snd (snd (Close c w))))
            = (None, release_noop, Some io_EOF))"
proof (intro conjI impI)
  have zero: "0 < maxEmptyFrameCount" by (simp add: maxEmptyFrameCount_def)
  {
    fix w' :: world
    assume "ctxs w' (r_ctx rd)"
    then have "fst (reader_Read env rd w') = (None, release_noop, Some io_EOF)"
      using reader_loop_cancelled [where i = 0 and env = env and rd = rd and w = w', OF zero]
      by (simp add: reader_Read_def)
  }
  note at_start = this
  {
    assume "ctxs w (r_ctx rd)"
    then show "fst (reader_Read env rd w) = (None, release_noop, Some io_EOF)"
      by (rule at_start)
  next
    assume "cam c \<noteq> None \<and> cancel c = Some (r_ctx rd)"
    then have "ctxs (snd (snd (Close c w))) (r_ctx rd)"
      using Close_cancels by blast
    then show "fst (reader_Read env rd (snd (snd (Close c w))))
                 = (None, release_noop, Some io_EOF)"
      by (rule at_start)
  next
    assume "\<not> ctxs w (r_ctx rd) \<and> k < maxEmptyFrameCount
        \<and> (\<forall>j<k. retry_step rd (env j)) \<and> st_closing (env k)"
    then show "fst (reader_Read env rd w) = (None, release_noop, Some io_EOF)"
      using Read_retries_then_cancelled by blast
  }
qed

section \<open>What every iteration and every call keeps\<close>

lemma decode_args_append: "decode_args (xs @ ys) = decode_args xs @ decode_args ys"
  by (induction xs rule: decode_args.induct) simp_all

lemma keeps_refl: "keeps s s"
  by (simp add: keeps_def same_closure_def)

lemma keeps_trans:
  assumes "keeps a b" "keeps b c"
  shows "keeps a c"
proof -
  from assms(1) obtain e1 where e1: "trace (snd b) = trace (snd a) @ e1"
    "set (decode_args e1) \<subseteq> {(Width (r_p (fst a)), Height (r_p (fst a)))}"
    by (auto simp: keeps_def)
  from assms(1) have p: "r_p (fst b) = r_p (fst a)"
    by (simp add: keeps_def same_closure_def)
  from assms(2) p obtain e2 where e2: "trace (snd c) = trace (snd b) @ e2"
    "set (decode_args e2) \<subseteq> {(Width (r_p (fst a)), Height (r_p (fst a)))}"
    by (auto simp: keeps_def)
  have "trace (snd c) = trace (snd a) @ (e1 @ e2)"
    using e1 e2 by simp
  moreover have "set (decode_args (e1 @ e2)) \<subseteq> {(Width (r_p (fst a)), Height (r_p (fst a)))}"
    using e1 e2 by (simp add: decode_args_append)
  ultimately show ?thesis
    using assms unfolding keeps_def same_closure_def
    by (metis (no_types, lifting) order_trans)
qed

lemma iteration_keeps: "keeps s (snd (iteration st s))"
proof (cases s)
  case (Pair rd w)
  show ?thesis
    unfolding Pair keeps_def same_closure_def iteration_def
    by (simp add: emit_def camera_log_def go_copy_def make_bytes_def Let_def
          decode_args_append
          split: option.splits sum.splits prod.splits)
qed

lemma reader_loop_keeps: "keeps s (snd (reader_loop env i s))"
proof (induction env i s rule: reader_loop.induct)
  case (1 env i s)
  show ?case
  proof (cases "i < maxEmptyFrameCount")
    case False
    then show ?thesis
      by (subst reader_loop.simps)
         (simp add: keeps_def same_closure_def camera_log_def)
  next
    case True
    obtain c s' where it: "iteration (env i) s = (c, s')"
      by (cases "iteration (env i) s") auto
    have k1: "keeps s s'" using iteration_keeps [of s "env i"] it by simp
    show ?thesis
    proof (cases c)
      case (Return r)
      with True it k1 show ?thesis
        by (subst reader_loop.simps) simp
    next
      case Continue
      from "1.IH" [OF True it [symmetric, simplified Continue] ] 
      have "keeps s' (snd (reader_loop env (Suc i) s'))"
        using Continue by simp
      with k1 have "keeps s (snd (reader_loop env (Suc i) s'))"
        by (rule keeps_trans)
      with True it Continue show ?thesis
        by (subst reader_loop.simps) simp
    qed
  qed
qed

lemma reader_Reads_keeps: "keeps s (reader_Reads envs s)"
proof (induction envs arbitrary: s)
  case Nil
  show ?case by (simp add: keeps_refl)
next
  case (Cons env envs)
  have "keeps s (snd (reader_Read env (fst s) (snd s)))"
    using reader_loop_keeps [of s env 0] by (simp add: reader_Read_def)
  then show ?case
    using Cons.IH [of "snd (reader_Read env (fst s) (snd s))"]
    by (simp add: keeps_trans)
qed

section \<open>Starting a recording\<close>

lemma VideoRecord_started:
  assumes "NewDecoder (FrameFormat p) = Inr dec" "cam c = Some dev"
    and "SetImageFormat dev (case reversedFormats c (FrameFormat p) of None \<Rightarrow> 0 | Some x \<Rightarrow> x)
           (word_of_int (Width p)) (word_of_int (Height p)) = Inr actual"
    and "FrameRate p > 0 \<longrightarrow> SetFramerate dev (FrameRate p) = None"
    and "StartStreaming dev = None"
  shows "\<exists>w'. VideoRecord NewDecoder t c p w =
           (Inr \<lparr>r_ctx = next_ctx w, r_decoder = dec, r_p = p, readTimeoutSec = t,
                 buf = [], nbFrames = 0\<rparr>,
            c\<lparr>cancel := Some (next_ctx w)\<rparr>, w')
           \<and> ctxs w' = (ctxs w)(next_ctx w := False) \<and> next_ctx w' = Suc (next_ctx w)
           \<and> trace w' =
               trace w @ [Log ''Create new recorder for media'', Log ''Set FrameFormat and size'',
                 SetImageFormat_call
                   (case reversedFormats c (FrameFormat p) of None \<Rightarrow> 0 | Some x \<Rightarrow> x)
                   (word_of_int (Width p)) (word_of_int (Height p)),
                 Log ''Actual image format'']
               @ (if FrameRate p > 0
                  then [SetFramerate_call (FrameRate p), Log ''Frame Rate''] else [])
               @ [StartStreaming_call, Log ''Started streaming'',
                  Log ''Read timeout (time to wait for a new frame)'']"
  using assms
  by (cases actual) (simp add: VideoRecord_def Let_def emit_def camera_log_def)

lemma events_since_append: "trace w' = trace w @ evs \<Longrightarrow> events_since w w' = evs"
  by (simp add: events_since_def)

text \<open>
  C5. When the device accepts the request to set the format, whatever actual format, width
  and height it returns, and the frame rate and the start of the stream raise no error,
  \<^verbatim>\<open>VideoRecord\<close> succeeds, and in every later sequence of calls of the reader each call of
  the decoder gets the requested width and height.
\<close>

theorem requested_size_decoded:
  assumes "NewDecoder (FrameFormat p) = Inr dec" "cam c = Some dev"
    and "SetImageFormat dev (case reversedFormats c (FrameFormat p) of None \<Rightarrow> 0 | Some x \<Rightarrow> x)
           (word_of_int (Width p)) (word_of_int (Height p))
         = Inr (actualPF, actualWidth, actualHeight)"
    and "FrameRate p > 0 \<longrightarrow> SetFramerate dev (FrameRate p) = None"
    and "StartStreaming dev = None"
  shows "\<exists>rd c' w'. VideoRecord NewDecoder t c p w = (Inr rd, c', w')
           \<and> r_p rd = p \<and> r_decoder rd = dec
           \<and> (\<forall>envs. set (decode_args (events_since w' (snd (reader_Reads envs (rd, w')))))
                        \<subseteq> {(Width p, Height p)})"
proof -
  from VideoRecord_started [where NewDecoder = NewDecoder and p = p and c = c and dev = dev
      and t = t and w = w, OF assms]
  obtain w' where vr: "VideoRecord NewDecoder t c p w =
      (Inr \<lparr>r_ctx = next_ctx w, r_decoder = dec, r_p = p, readTimeoutSec = t,
            buf = [], nbFrames = 0\<rparr>, c\<lparr>cancel := Some (next_ctx w)\<rparr>, w')"
    by blast
  define rd where "rd = \<lparr>r_ctx = next_ctx w, r_decoder = dec, r_p = p, readTimeoutSec = t,
            buf = [], nbFrames = 0 :: int\<rparr>"
  have "set (decode_args (events_since w' (snd (reader_Reads envs (rd, w')))))
          \<subseteq> {(Width p, Height p)}" for envs
  proof -
    from reader_Reads_keeps [of "(rd, w')" envs]
    obtain evs where "trace (snd (reader_Reads envs (rd, w'))) = trace w' @ evs"
      and "set (decode_args evs) \<subseteq> {(Width (r_p rd), Height (r_p rd))}"
      by (auto simp: keeps_def)
    then show ?thesis
      by (simp add: events_since_append rd_def)
  qed
  with vr show ?thesis
    by (simp add: rd_def)
qed

lemmas pixfmt_defs =
  V4L2_PIX_FMT_YUV420_def V4L2_PIX_FMT_NV21_def V4L2_PIX_FMT_NV12_def
  V4L2_PIX_FMT_YUYV_def V4L2_PIX_FMT_UYVY_def V4L2_PIX_FMT_MJPEG_def
  V4L2_PIX_FMT_Z16_def v4l2_fourcc_def

lemma sim_reversed_MJPEG: "reversedFormats sim_camera FormatMJPEG = Some V4L2_PIX_FMT_MJPEG"
  by (simp add: sim_camera_def newCamera_def formats_literal_def)

lemma sim_cam: "cam sim_camera = Some sim_webcam"
  by (simp add: sim_camera_def)

lemma sim_VideoRecord:
  "sim_started =
     (Inr sim_reader, sim_camera\<lparr>cancel := Some 0\<rparr>,
      \<lparr>ctxs = (\<lambda>k. False)(0 := False), next_ctx = 1,
       trace = [Log ''Create new recorder for media'', Log ''Set FrameFormat and size'',
                SetImageFormat_call V4L2_PIX_FMT_MJPEG 640 480, Log ''Actual image format'',
                SetFramerate_call 30, Log ''Frame Rate'', StartStreaming_call,
                Log ''Started streaming'',
                Log ''Read timeout (time to wait for a new frame)'']\<rparr>)"
  by (simp add: sim_started_def VideoRecord_def sim_NewDecoder_def sim_reversed_MJPEG
        sim_cam sim_media_def sim_world_def sim_webcam_def sim_reader_def Let_def emit_def
        camera_log_def)

lemma sim_Reads_decode_args:
  "decode_args (events_since (snd (snd sim_started))
      (snd (reader_Reads [sim_reads [[1, 2, 3]], sim_reads [[], [4]]]
              (sim_reader, snd (snd sim_started)))))
   = [(640, 480), (640, 480)]"
  by (simp add: sim_VideoRecord reader_Read_def)
     (simp add: reader_loop.simps maxEmptyFrameCount_def iteration_def sim_reads_def
        sim_reader_def sim_media_def Let_def emit_def camera_log_def
        go_copy_def make_bytes_def decoderFunc_Decode_def sim_decode_def
        errors_Is_nil_def events_since_def)

theorem requested_size_decoded_witness:
  "SetImageFormat sim_webcam V4L2_PIX_FMT_MJPEG 640 480 = Inr (V4L2_PIX_FMT_YUYV, 320, 240)
   \<and> (\<exists>rd c' w'. sim_started = (Inr rd, c', w')
         \<and> r_p rd = sim_media
         \<and> set (decode_args (events_since w'
                  (snd (reader_Reads [sim_reads [[1, 2, 3]], sim_reads [[], [4]]] (rd, w')))))
             \<subseteq> {(640, 480)})
   \<and> decode_args (events_since (snd (snd sim_started))
        (snd (reader_Reads [sim_reads [[1, 2, 3]], sim_reads [[], [4]]]
                (sim_reader, snd (snd sim_started)))))
      = [(640, 480), (640, 480)]"
proof -
  have h1: "sim_NewDecoder (FrameFormat sim_media) = Inr (decoderFunc_Decode sim_decode)"
    by (simp add: sim_NewDecoder_def)
  have h2: "cam sim_camera = Some sim_webcam"
    by (simp add: sim_camera_def)
  have h3: "SetImageFormat sim_webcam
              (case reversedFormats sim_camera (FrameFormat sim_media) of
                 None \<Rightarrow> 0 | Some x \<Rightarrow> x)
              (word_of_int (Width sim_media)) (word_of_int (Height sim_media))
            = Inr (V4L2_PIX_FMT_YUYV, 320, 240)"
    by (simp add: sim_webcam_def)
  have h4: "FrameRate sim_media > 0 \<longrightarrow> SetFramerate sim_webcam (FrameRate sim_media) = None"
    by (simp add: sim_webcam_def)
  have h5: "StartStreaming sim_webcam = None"
    by (simp add: sim_webcam_def)
  have a: "SetImageFormat sim_webcam V4L2_PIX_FMT_MJPEG 640 480
             = Inr (V4L2_PIX_FMT_YUYV, 320, 240)"
    by (simp add: sim_webcam_def)
  have wh: "Width sim_media = 640" "Height sim_media = 480"
    by (simp_all add: sim_media_def)
  from requested_size_decoded [where NewDecoder = sim_NewDecoder and p = sim_media
         and c = sim_camera and dev = sim_webcam and t = 5 and w = sim_world,
         OF h1 h2 h3 h4 h5]
  have b: "\<exists>rd c' w'. sim_started = (Inr rd, c', w')
         \<and> r_p rd = sim_media
         \<and> set (decode_args (events_since w'
                  (snd (reader_Reads [sim_reads [[1, 2, 3]], sim_reads [[], [4]]] (rd, w')))))
             \<subseteq> {(640, 480)}"
    unfolding sim_started_def wh by blast
  from a b sim_Reads_decode_args show ?thesis by blast
qed

theorem cancelled_read_is_EOF_witness:
  "fst (reader_Read (sim_reads [[1, 2, 3]]) sim_reader
         (snd (snd (Close (fst (snd sim_started)) (snd (snd sim_started))))))
     = (None, release_noop, Some io_EOF)
   \<and> fst (reader_Read (sim_closing_at 2 [[], [0, 1], [1, 2, 3]]) sim_reader sim_world)
     = (None, release_noop, Some io_EOF)"
proof -
  have c1: "cam (fst (snd sim_started)) \<noteq> None
            \<and> cancel (fst (snd sim_started)) = Some (r_ctx sim_reader)"
    by (simp add: sim_VideoRecord sim_camera_def sim_reader_def)
  have r0: "retry_step sim_reader (sim_closing_at 2 [[], [0, 1], [1, 2, 3]] 0)"
    by (simp add: retry_step_def empty_step_def sim_closing_at_def sim_reads_def)
  have r1: "retry_step sim_reader (sim_closing_at 2 [[], [0, 1], [1, 2, 3]] 1)"
    by (simp add: retry_step_def undecodable_step_def sim_closing_at_def sim_reads_def
          sim_reader_def decoderFunc_Decode_def sim_decode_def errors_Is_nil_def
          errors_Is_decoderError)
  have r: "\<forall>j<2. retry_step sim_reader (sim_closing_at 2 [[], [0, 1], [1, 2, 3]] j)"
    using r0 r1 by (simp add: eval_nat_numeral less_Suc_eq)
  have c2: "\<not> ctxs sim_world (r_ctx sim_reader) \<and> 2 < maxEmptyFrameCount
            \<and> st_closing (sim_closing_at 2 [[], [0, 1], [1, 2, 3]] 2)"
    by (simp add: sim_world_def maxEmptyFrameCount_def sim_closing_at_def)
  show ?thesis
    using cancelled_read_is_EOF [of sim_world sim_reader
            "sim_closing_at 2 [[], [0, 1], [1, 2, 3]]" 2 "fst (snd sim_started)"]
          cancelled_read_is_EOF [of "snd (snd sim_started)" sim_reader
            "sim_reads [[1, 2, 3]]" 2 "fst (snd sim_started)"]
          c1 c2 r
    by blast
qed

text \<open>
  C3 does not hold of \<^verbatim>\<open>VideoRecord\<close>: for a requested format without a native counterpart
  in the table for which a decoder exists, the simulated device is asked to set the pixel
  format 0 at 640 by 480 and the call succeeds.
\<close>

theorem unresolved_format_reaches_device:
  "reversedFormats sim_camera (FrameFormat sim_unregistered) = None
   \<and> \<not> isl (fst (VideoRecord sim_NewDecoder 5 sim_camera sim_unregistered sim_world))
   \<and> SetImageFormat_call 0 640 480
       \<in> set (trace (snd (snd (VideoRecord sim_NewDecoder 5 sim_camera sim_unregistered
                                 sim_world))))"
proof -
  have n: "reversedFormats sim_camera (FrameFormat sim_unregistered) = None"
    by (simp add: sim_unregistered_def sim_camera_def newCamera_def formats_literal_def)
  show ?thesis
    by (simp add: n VideoRecord_def sim_NewDecoder_def Let_def emit_def camera_log_def
          sim_cam sim_webcam_def sim_world_def)
       (simp add: sim_unregistered_def sim_media_def)
qed

text \<open>
  C3 as the code has it. For a requested format without a native counterpart in the table:
  when \<^verbatim>\<open>frame.NewDecoder\<close> has no decoder for the format, \<^verbatim>\<open>VideoRecord\<close> returns that error
  and does not ask the device to set a format; when it has one and the camera is open,
  the missing entry reads as the pixel format 0, the device is asked to set the format 0 at
  the requested size, an error of that request is returned, and when the device accepts
  it and neither the frame rate nor the start of the stream fails, the call succeeds.
\<close>

theorem unresolved_format_amended:
  assumes "reversedFormats c (FrameFormat p) = None"
  shows "(\<forall>err. NewDecoder (FrameFormat p) = Inl err \<longrightarrow>
            fst (VideoRecord NewDecoder t c p w) = Inl err
            \<and> (\<forall>pf x y. SetImageFormat_call pf x y
                  \<notin> set (events_since w (snd (snd (VideoRecord NewDecoder t c p w))))))
       \<and> (\<forall>dec dev. NewDecoder (FrameFormat p) = Inr dec \<and> cam c = Some dev \<longrightarrow>
            SetImageFormat_call 0 (word_of_int (Width p)) (word_of_int (Height p))
              \<in> set (events_since w (snd (snd (VideoRecord NewDecoder t c p w))))
            \<and> (\<forall>err. SetImageFormat dev 0 (word_of_int (Width p)) (word_of_int (Height p))
                        = Inl err
                  \<longrightarrow> fst (VideoRecord NewDecoder t c p w) = Inl err)
            \<and> (\<forall>actual. SetImageFormat dev 0 (word_of_int (Width p)) (word_of_int (Height p))
                           = Inr actual
                         \<and> (FrameRate p > 0 \<longrightarrow> SetFramerate dev (FrameRate p) = None)
                         \<and> StartStreaming dev = None
                  \<longrightarrow> \<not> isl (fst (VideoRecord NewDecoder t c p w))))"
proof (intro conjI allI impI)
  fix err
  assume "NewDecoder (FrameFormat p) = Inl err"
  then show "fst (VideoRecord NewDecoder t c p w) = Inl err"
    by (simp add: VideoRecord_def Let_def)
next
  fix err pf x y
  assume "NewDecoder (FrameFormat p) = Inl err"
  then show "SetImageFormat_call pf x y
               \<notin> set (events_since w (snd (snd (VideoRecord NewDecoder t c p w))))"
    by (simp add: VideoRecord_def Let_def camera_log_def events_since_def)
next
  fix dec dev
  assume a: "NewDecoder (FrameFormat p) = Inr dec \<and> cam c = Some dev"
  with assms
  show "SetImageFormat_call 0 (word_of_int (Width p)) (word_of_int (Height p))
          \<in> set (events_since w (snd (snd (VideoRecord NewDecoder t c p w))))"
    by (simp add: VideoRecord_def Let_def camera_log_def emit_def events_since_def
          split: sum.splits option.splits prod.splits)
next
  fix dec dev err
  assume "NewDecoder (FrameFormat p) = Inr dec \<and> cam c = Some dev"
    and "SetImageFormat dev 0 (word_of_int (Width p)) (word_of_int (Height p)) = Inl err"
  with assms show "fst (VideoRecord NewDecoder t c p w) = Inl err"
    by (simp add: VideoRecord_def Let_def)
next
  fix dec dev actual
  assume a: "NewDecoder (FrameFormat p) = Inr dec \<and> cam c = Some dev"
    and b: "SetImageFormat dev 0 (word_of_int (Width p)) (word_of_int (Height p)) = Inr actual
            \<and> (FrameRate p > 0 \<longrightarrow> SetFramerate dev (FrameRate p) = None)
            \<and> StartStreaming dev = None"
  from a b assms
  have "\<exists>w'. VideoRecord NewDecoder t c p w =
           (Inr \<lparr>r_ctx = next_ctx w, r_decoder = dec, r_p = p, readTimeoutSec = t,
                 buf = [], nbFrames = 0\<rparr>,
            c\<lparr>cancel := Some (next_ctx w)\<rparr>, w')"
    using VideoRecord_started [where NewDecoder = NewDecoder and p = p and c = c
            and dev = dev and t = t and w = w and dec = dec and actual = actual]
    by auto
  then show "\<not> isl (fst (VideoRecord NewDecoder t c p w))"
    by auto
qed

theorem unresolved_format_amended_witness:
  "fst (VideoRecord sim_NewDecoder_none 5 sim_camera sim_unregistered sim_world)
     = Inl (other_error ''format is not supported'')
   \<and> SetImageFormat_call 0 640 480
       \<in> set (events_since sim_world
                (snd (snd (VideoRecord sim_NewDecoder 5 sim_camera sim_unregistered sim_world))))
   \<and> \<not> isl (fst (VideoRecord sim_NewDecoder 5 sim_camera sim_unregistered sim_world))"
proof -
  have n: "reversedFormats sim_camera (FrameFormat sim_unregistered) = None"
    by (simp add: sim_unregistered_def sim_camera_def newCamera_def formats_literal_def)
  have d0: "sim_NewDecoder_none (FrameFormat sim_unregistered)
              = Inl (other_error ''format is not supported'')"
    by (simp add: sim_NewDecoder_none_def)
  have d1: "sim_NewDecoder (FrameFormat sim_unregistered) = Inr (decoderFunc_Decode sim_decode)
            \<and> cam sim_camera = Some sim_webcam"
    by (simp add: sim_NewDecoder_def sim_cam)
  have wh: "word_of_int (Width sim_unregistered) = (640 :: u32)"
    "word_of_int (Height sim_unregistered) = (480 :: u32)"
    by (simp_all add: sim_unregistered_def sim_media_def)
  have s: "SetImageFormat sim_webcam 0 640 480 = Inr (V4L2_PIX_FMT_YUYV, 320, 240)
           \<and> (FrameRate sim_unregistered > 0
                \<longrightarrow> SetFramerate sim_webcam (FrameRate sim_unregistered) = None)
           \<and> StartStreaming sim_webcam = None"
    by (simp add: sim_webcam_def)
  show ?thesis
    using unresolved_format_amended [OF n, of sim_NewDecoder_none 5 sim_world]
          unresolved_format_amended [OF n, of sim_NewDecoder 5 sim_world]
          d0 d1 s
    unfolding wh by blast
qed

section \<open>Closing twice\<close>

lemma Close_no_error: "fst (Close c w) = None"
  by (simp add: Close_def split: option.splits prod.splits)

lemma Close_unopened:
  "cam c = None \<Longrightarrow> Close c w = (None, c, camera_log w ''Closing camera while already closed'')"
  by (simp add: Close_def)

lemma Close_keeps_handle: "cam (fst (snd (Close c w))) = cam c"
  by (simp add: Close_def Let_def split: option.splits)

lemma Close_opened_releases:
  "cam c \<noteq> None \<Longrightarrow> last (trace (snd (snd (Close c w)))) = webcam_Close_call"
  by (auto simp: Close_def Let_def emit_def split: option.splits)

text \<open>
  C6 on the code: \<^verbatim>\<open>Close\<close> never sets \<^verbatim>\<open>c.cam\<close> back to nil, so on the camera that was
  opened and closed, the second \<^verbatim>\<open>Close\<close> does not take the branch for a closed camera.
  Neither call returns an error, but the handle that the first call released is released
  once more by the second.
\<close>

theorem second_Close_releases_again:
  "fst sim_opened = None \<and> fst sim_closed = None \<and> fst sim_closed_twice = None
   \<and> cam (fst (snd sim_closed)) = Some sim_webcam
   \<and> count_list (trace (snd (snd sim_closed))) webcam_Close_call = 1
   \<and> count_list (trace (snd (snd sim_closed_twice))) webcam_Close_call = 2
   \<and> Log ''Closing camera while already closed'' \<notin> set (trace (snd (snd sim_closed_twice)))"
  by (simp add: sim_closed_twice_def sim_closed_def sim_opened_def Open_def Close_def
        sim_webcam_Open_def newCamera_def sim_world_def Let_def emit_def camera_log_def)

section \<open>The scratch buffer\<close>

lemma Reads_buf_grows: "length (buf (fst s)) \<le> length (buf (fst (reader_Reads envs s)))"
  using reader_Reads_keeps [of s envs] by (simp add: keeps_def)

text \<open>
  C9. An iteration of the read loop that reads a non-empty buffer \<open>b\<close> hands the decoder
  exactly \<open>b\<close>: afterwards the first \<open>length b\<close> bytes of the scratch buffer are \<open>b\<close>, whether
  the buffer had to grow or was longer than \<open>b\<close> before, the decoder was called on \<open>b\<close> with
  the requested size, and the scratch buffer is as long as the longer of its old length
  and \<open>length b\<close>. Over any sequence of calls of the reader its length never decreases.
\<close>

theorem scratch_buffer_copy:
  assumes "\<not> st_closing st" "\<not> ctxs w (r_ctx rd)" "st_wait st = None"
    and "st_read st = Inr b" "b \<noteq> []"
  shows "fst (iteration st (rd, w)) =
           (case r_decoder rd b (Width (r_p rd)) (Height (r_p rd)) of
              (img, rel, err) \<Rightarrow>
                if errors_Is_nil err DecoderError then Continue else Return (img, rel, err))
       \<and> last (trace (snd (snd (iteration st (rd, w)))))
           = Decode_call b (Width (r_p rd)) (Height (r_p rd))
       \<and> take (length b) (buf (fst (snd (iteration st (rd, w))))) = b
       \<and> length (buf (fst (snd (iteration st (rd, w))))) = max (length (buf rd)) (length b)
       \<and> (\<forall>envs s. length (buf (fst s :: ('i, 'r) reader))
                      \<le> length (buf (fst (reader_Reads envs s))))"
proof -
  obtain img rel err
    where d: "r_decoder rd b (Width (r_p rd)) (Height (r_p rd)) = (img, rel, err)"
    by (cases "r_decoder rd b (Width (r_p rd)) (Height (r_p rd))") auto
  note it = iteration_nonempty [OF assms d]
  have "length (b @ drop (length b) (buf rd)) = max (length (buf rd)) (length b)"
    by simp
  then show ?thesis
    by (simp add: it d Reads_buf_grows)
qed

theorem scratch_buffer_copy_witness:
  "take 2 (buf (fst (snd (iteration (sim_reads [[1, 2]] 0)
                            (sim_reader\<lparr>buf := [9, 9, 9, 9, 9]\<rparr>, sim_world))))) = [1, 2]
   \<and> length (buf (fst (snd (iteration (sim_reads [[1, 2]] 0)
                               (sim_reader\<lparr>buf := [9, 9, 9, 9, 9]\<rparr>, sim_world))))) = 5
   \<and> last (trace (snd (snd (iteration (sim_reads [[1, 2]] 0)
                               (sim_reader\<lparr>buf := [9, 9, 9, 9, 9]\<rparr>, sim_world)))))
       = Decode_call [1, 2] 640 480
   \<and> take 3 (buf (fst (snd (iteration (sim_reads [[1, 2, 3]] 0)
                              (sim_reader\<lparr>buf := [9]\<rparr>, sim_world))))) = [1, 2, 3]
   \<and> length (buf (fst (snd (iteration (sim_reads [[1, 2, 3]] 0)
                               (sim_reader\<lparr>buf := [9]\<rparr>, sim_world))))) = 3"
proof -
  have h1: "\<not> st_closing (sim_reads [[1, 2]] 0)" "st_wait (sim_reads [[1, 2]] 0) = None"
    "st_read (sim_reads [[1, 2]] 0) = Inr [1, 2]"
    "\<not> st_closing (sim_reads [[1, 2, 3]] 0)" "st_wait (sim_reads [[1, 2, 3]] 0) = None"
    "st_read (sim_reads [[1, 2, 3]] 0) = Inr [1, 2, 3]"
    by (simp_all add: sim_reads_def)
  have h2: "\<not> ctxs sim_world (r_ctx (sim_reader\<lparr>buf := [9, 9, 9, 9, 9]\<rparr>))"
    "\<not> ctxs sim_world (r_ctx (sim_reader\<lparr>buf := [9]\<rparr>))"
    by (simp_all add: sim_world_def)
  have h3: "[1, 2] \<noteq> ([] :: bytes)" "[1, 2, 3] \<noteq> ([] :: bytes)"
    by simp_all
  have p: "Width (r_p sim_reader) = 640" "Height (r_p sim_reader) = 480"
    by (simp_all add: sim_reader_def sim_media_def)
  have l: "length [1, 2 :: 8 word] = 2" "length [1, 2, 3 :: 8 word] = 3"
    "max (length (buf (sim_reader\<lparr>buf := [9, 9, 9, 9, 9]\<rparr>))) 2 = 5"
    "max (length (buf (sim_reader\<lparr>buf := [9]\<rparr>))) 3 = 3"
    "r_p (sim_reader\<lparr>buf := [9, 9, 9, 9, 9]\<rparr>) = r_p sim_reader"
    "r_p (sim_reader\<lparr>buf := [9]\<rparr>) = r_p sim_reader"
    by simp_all
  show ?thesis
    using scratch_buffer_copy [OF h1(1) h2(1) h1(2) h1(3) h3(1)]
          scratch_buffer_copy [OF h1(4) h2(2) h1(5) h1(6) h3(2)]
    unfolding l p by blast
qed

section \<open>The format table\<close>

lemma reverse_loop_absent:
  "f \<notin> snd ` set visited \<Longrightarrow> reverse_loop visited m f = m f"
  by (induction visited m rule: reverse_loop.induct) auto

lemma reverse_loop_Some:
  "reverse_loop visited m f = Some k \<Longrightarrow> (k, f) \<in> set visited \<or> m f = Some k"
  by (induction visited m rule: reverse_loop.induct) (auto split: if_splits)

lemma reverse_loop_member:
  "distinct (map snd visited) \<Longrightarrow> (k, f) \<in> set visited \<Longrightarrow> reverse_loop visited m f = Some k"
proof (induction visited m rule: reverse_loop.induct)
  case (1 reversed)
  then show ?case by simp
next
  case (2 k' v' rest reversed)
  show ?case
  proof (cases "(k, f) = (k', v')")
    case True
    with "2.prems" have "f \<notin> snd ` set rest" by auto
    with True show ?thesis by (simp add: reverse_loop_absent)
  next
    case False
    with "2.prems" have m: "(k, f) \<in> set rest" and d: "distinct (map snd rest)"
      by auto
    from "2.IH" [OF d m] show ?thesis by (simp add: fun_upd_def)
  qed
qed

lemma formats_literal_keys: "distinct (map fst formats_literal)"
  by (simp add: formats_literal_def pixfmt_defs)

lemma formats_literal_values: "distinct (map snd formats_literal)"
  by (simp add: formats_literal_def)

lemma range_order_values:
  assumes "range_order visited"
  shows "distinct (map snd visited)"
proof -
  have "inj_on snd (set formats_literal)"
    using formats_literal_values by (simp add: distinct_map)
  with assms show ?thesis
    by (simp add: range_order_def distinct_map)
qed

lemma formats_lookup:
  "formats (newCamera visited device_path) pf = Some f \<longleftrightarrow> (pf, f) \<in> set formats_literal"
  by (simp add: newCamera_def formats_literal_keys)

lemma reversedFormats_lookup:
  assumes "range_order visited"
  shows "reversedFormats (newCamera visited device_path) f = Some pf
           \<longleftrightarrow> (pf, f) \<in> set formats_literal"
proof
  assume "reversedFormats (newCamera visited device_path) f = Some pf"
  then have "(pf, f) \<in> set visited"
    using reverse_loop_Some [of visited Map.empty f pf] by (simp add: newCamera_def)
  with assms show "(pf, f) \<in> set formats_literal" by (simp add: range_order_def)
next
  assume "(pf, f) \<in> set formats_literal"
  with assms have "(pf, f) \<in> set visited" by (simp add: range_order_def)
  then show "reversedFormats (newCamera visited device_path) f = Some pf"
    using reverse_loop_member [OF range_order_values [OF assms]]
    by (simp add: newCamera_def)
qed

text \<open>
  C10. Whatever the order in which \<^verbatim>\<open>newCamera\<close> visits the entries of the map literal:
  a canonical format that the reversed map resolves to a native format is what the forward
  map gives for that native format, and conversely; so each of the two maps is injective
  on the formats it knows, and the reversed map does not depend on the order.
\<close>

theorem format_round_trip:
  assumes "range_order visited"
  shows "(reversedFormats (newCamera visited device_path) f = Some pf
            \<longrightarrow> formats (newCamera visited device_path) pf = Some f)
       \<and> (formats (newCamera visited device_path) pf = Some f
            \<longrightarrow> reversedFormats (newCamera visited device_path) f = Some pf)
       \<and> inj_on (formats (newCamera visited device_path))
            (dom (formats (newCamera visited device_path)))
       \<and> inj_on (reversedFormats (newCamera visited device_path))
            (dom (reversedFormats (newCamera visited device_path)))
       \<and> dom (reversedFormats (newCamera visited device_path))
            = ran (formats (newCamera visited device_path))"
proof -
  let ?c = "newCamera visited device_path"
  note r = reversedFormats_lookup [OF assms, of device_path]
  note f = formats_lookup [of visited device_path]
  have both: "reversedFormats ?c x = Some y \<longleftrightarrow> formats ?c y = Some x" for x y
    by (simp add: r f)
  have i1: "inj_on (formats ?c) (dom (formats ?c))"
  proof (rule inj_onI)
    fix x y assume "x \<in> dom (formats ?c)" "y \<in> dom (formats ?c)"
      and e: "formats ?c x = formats ?c y"
    then obtain v where "formats ?c x = Some v" "formats ?c y = Some v" by auto
    then have "reversedFormats ?c v = Some x" "reversedFormats ?c v = Some y"
      by (simp_all add: both)
    then show "x = y" by simp
  qed
  have i2: "inj_on (reversedFormats ?c) (dom (reversedFormats ?c))"
  proof (rule inj_onI)
    fix x y assume "x \<in> dom (reversedFormats ?c)" "y \<in> dom (reversedFormats ?c)"
      and e: "reversedFormats ?c x = reversedFormats ?c y"
    then obtain v where "reversedFormats ?c x = Some v" "reversedFormats ?c y = Some v"
      by auto
    then have "formats ?c v = Some x" "formats ?c v = Some y"
      by (simp_all add: both)
    then show "x = y" by simp
  qed
  have d: "dom (reversedFormats ?c) = ran (formats ?c)"
    by (auto simp: ran_def dom_def both)
  from both i1 i2 d show ?thesis by blast
qed

theorem format_round_trip_witness:
  "reversedFormats (newCamera (rev formats_literal) ''/dev/video0'') FormatMJPEG
     = Some V4L2_PIX_FMT_MJPEG
   \<and> formats (newCamera (rev formats_literal) ''/dev/video0'') V4L2_PIX_FMT_MJPEG
     = Some FormatMJPEG"
proof -
  have o: "range_order (rev formats_literal)"
    using formats_literal_keys by (simp add: range_order_def distinct_map)
  have a: "reversedFormats (newCamera (rev formats_literal) ''/dev/video0'') FormatMJPEG
     = Some V4L2_PIX_FMT_MJPEG"
    by (simp add: newCamera_def formats_literal_def)
  from format_round_trip [OF o, of "''/dev/video0''" FormatMJPEG V4L2_PIX_FMT_MJPEG] a
  show ?thesis by blast
qed

section \<open>Enumerating the capabilities\<close>

lemma smod_nonneg: "0 \<le> a \<Longrightarrow> 0 < b \<Longrightarrow> a smod b = a mod (b :: int)"
  by (simp add: smod_int_alt_def sgn_if)

lemma uint_pos: "x \<noteq> 0 \<Longrightarrow> 0 < uint (x :: u32)"
  using uint_nonnegative [of x] uint_0_iff [of x] by linarith

lemma resolutions_loop_eq:
  assumes "StepWidth fs \<noteq> 0" "StepHeight fs \<noteq> 0"
  shows "resolutions_loop fs f rs props
           = props @ map (descriptor f) (filter (spec_accepts fs) rs)"
proof (induction rs arbitrary: props)
  case Nil
  show ?case by simp
next
  case (Cons r rs)
  have sw: "0 < uint (StepWidth fs)" and sh: "0 < uint (StepHeight fs)"
    using assms by (simp_all add: uint_pos)
  show ?case
  proof (cases "fst r < uint (MinWidth fs) \<or> fst r > uint (MaxWidth fs)
                \<or> snd r < uint (MinHeight fs) \<or> snd r > uint (MaxHeight fs)")
    case True
    then have "\<not> spec_accepts fs r" by (auto simp: spec_accepts_def)
    with True Cons.IH show ?thesis by (simp add: Let_def)
  next
    case False
    then have "spec_accepts fs r \<longleftrightarrow>
        (fst r - uint (MinWidth fs)) smod uint (StepWidth fs) = 0
        \<and> (snd r - uint (MinHeight fs)) smod uint (StepHeight fs) = 0"
      using sw sh by (simp add: spec_accepts_def smod_nonneg)
    with False Cons.IH show ?thesis
      by (simp add: Let_def descriptor_def)
  qed
qed

lemma frameSizes_loop_eq:
  "frameSizes_loop fmts format fss props
     = props @ concat (map (spec_entry_descriptors fmts format) fss)"
proof (induction fss arbitrary: props)
  case Nil
  show ?case by simp
next
  case (Cons fs fss)
  show ?case
  proof (cases "fmts format")
    case None
    with Cons.IH show ?thesis by (simp add: spec_entry_descriptors_def)
  next
    case (Some f)
    show ?thesis
    proof (cases "StepWidth fs = 0 \<or> StepHeight fs = 0")
      case True
      with Some Cons.IH show ?thesis
        by (auto simp: spec_entry_descriptors_def descriptor_def)
    next
      case False
      then have "resolutions_loop fs f supportedResolutions props
                   = props @ map (descriptor f) (filter (spec_accepts fs) supportedResolutions)"
        by (simp add: resolutions_loop_eq)
      with False Some Cons.IH show ?thesis
        by (simp add: spec_entry_descriptors_def)
    qed
  qed
qed

lemma formats_loop_eq:
  "formats_loop fmts dev fs props
     = props @ concat (map (\<lambda>format. concat (map (spec_entry_descriptors fmts format)
                                               (GetSupportedFrameSizes dev format))) fs)"
  by (induction fs arbitrary: props) (simp_all add: frameSizes_loop_eq)

lemma supportedResolutions_distinct: "distinct supportedResolutions"
  by (simp add: supportedResolutions_def)

lemma descriptor_inj: "inj (descriptor f)"
  by (auto simp: inj_def descriptor_def prod_eq_iff)

text \<open>
  C4. On an open camera \<^verbatim>\<open>Properties\<close> returns, for the formats the device reports in the
  order in which they are visited and for the frame sizes of each in their order, the
  descriptors of each entry one after the other, where an entry gives: nothing when the
  table does not have the native format; exactly the one descriptor with the maximal
  width, the maximal height and the canonical format when one of the two steps is zero;
  and otherwise, without repetition, the descriptors of the standard resolutions
  \<open>(w, h)\<close> with \<open>minWidth \<le> w \<le> maxWidth\<close>, \<open>minHeight \<le> h \<le> maxHeight\<close>,
  \<open>(w - minWidth) mod stepWidth = 0\<close> and \<open>(h - minHeight) mod stepHeight = 0\<close>, and no
  other.
\<close>

theorem capabilities_enumeration:
  assumes "cam c = Some dev"
  shows "Properties c =
           Inr (concat (map (\<lambda>format. concat (map (spec_entry_descriptors (formats c) format)
                                                  (GetSupportedFrameSizes dev format)))
                          (GetSupportedFormats dev)))
       \<and> (formats c format = None \<longrightarrow> spec_entry_descriptors (formats c) format fs = [])
       \<and> (formats c format = Some f \<and> (StepWidth fs = 0 \<or> StepHeight fs = 0) \<longrightarrow>
            spec_entry_descriptors (formats c) format fs =
              [\<lparr>Width = uint (MaxWidth fs), Height = uint (MaxHeight fs),
                FrameFormat = f, FrameRate = 0\<rparr>])
       \<and> (formats c format = Some f \<and> StepWidth fs \<noteq> 0 \<and> StepHeight fs \<noteq> 0 \<longrightarrow>
            distinct (spec_entry_descriptors (formats c) format fs)
            \<and> (\<forall>d. d \<in> set (spec_entry_descriptors (formats c) format fs) \<longleftrightarrow>
                 (\<exists>w h. d = \<lparr>Width = w, Height = h, FrameFormat = f, FrameRate = 0\<rparr>
                    \<and> (w, h) \<in> set supportedResolutions
                    \<and> uint (MinWidth fs) \<le> w \<and> w \<le> uint (MaxWidth fs)
                    \<and> uint (MinHeight fs) \<le> h \<and> h \<le> uint (MaxHeight fs)
                    \<and> (w - uint (MinWidth fs)) mod uint (StepWidth fs) = 0
                    \<and> (h - uint (MinHeight fs)) mod uint (StepHeight fs) = 0)))"
proof (intro conjI impI)
  show "Properties c =
           Inr (concat (map (\<lambda>format. concat (map (spec_entry_descriptors (formats c) format)
                                                  (GetSupportedFrameSizes dev format)))
                          (GetSupportedFormats dev)))"
    using assms by (simp add: Properties_def formats_loop_eq)
next
  assume "formats c format = None"
  then show "spec_entry_descriptors (formats c) format fs = []"
    by (simp add: spec_entry_descriptors_def)
next
  assume "formats c format = Some f \<and> (StepWidth fs = 0 \<or> StepHeight fs = 0)"
  then show "spec_entry_descriptors (formats c) format fs =
              [\<lparr>Width = uint (MaxWidth fs), Height = uint (MaxHeight fs),
                FrameFormat = f, FrameRate = 0\<rparr>]"
    by (auto simp: spec_entry_descriptors_def descriptor_def)
next
  assume a: "formats c format = Some f \<and> StepWidth fs \<noteq> 0 \<and> StepHeight fs \<noteq> 0"
  then have e: "spec_entry_descriptors (formats c) format fs
                  = map (descriptor f) (filter (spec_accepts fs) supportedResolutions)"
    by (simp add: spec_entry_descriptors_def)
  show "distinct (spec_entry_descriptors (formats c) format fs)"
    unfolding e
    by (simp add: distinct_map supportedResolutions_distinct
          inj_on_subset [OF descriptor_inj])
  show "\<forall>d. d \<in> set (spec_entry_descriptors (formats c) format fs) \<longleftrightarrow>
                 (\<exists>w h. d = \<lparr>Width = w, Height = h, FrameFormat = f, FrameRate = 0\<rparr>
                    \<and> (w, h) \<in> set supportedResolutions
                    \<and> uint (MinWidth fs) \<le> w \<and> w \<le> uint (MaxWidth fs)
                    \<and> uint (MinHeight fs) \<le> h \<and> h \<le> uint (MaxHeight fs)
                    \<and> (w - uint (MinWidth fs)) mod uint (StepWidth fs) = 0
                    \<and> (h - uint (MinHeight fs)) mod uint (StepHeight fs) = 0)"
    unfolding e
    by (auto simp: spec_accepts_def descriptor_def image_iff)
qed

lemma sim_formats:
  "formats sim_camera V4L2_PIX_FMT_MJPEG = Some FormatMJPEG"
  "formats sim_camera 7 = None"
  "formats sim_camera V4L2_PIX_FMT_YUYV = Some FormatYUYV"
  by (simp_all add: sim_camera_def newCamera_def formats_literal_def pixfmt_defs)

theorem capabilities_enumeration_witness:
  "Properties sim_camera =
     Inr [\<lparr>Width = 640, Height = 480, FrameFormat = FormatMJPEG, FrameRate = 0\<rparr>,
          \<lparr>Width = 320, Height = 240, FrameFormat = FormatYUYV, FrameRate = 0\<rparr>,
          \<lparr>Width = 640, Height = 480, FrameFormat = FormatYUYV, FrameRate = 0\<rparr>,
          \<lparr>Width = 800, Height = 600, FrameFormat = FormatYUYV, FrameRate = 0\<rparr>,
          \<lparr>Width = 800, Height = 480, FrameFormat = FormatYUYV, FrameRate = 0\<rparr>]
   \<and> distinct (spec_entry_descriptors (formats sim_camera) V4L2_PIX_FMT_YUYV
                 \<lparr>MinWidth = 320, MaxWidth = 800, StepWidth = 160,
                  MinHeight = 240, MaxHeight = 600, StepHeight = 120\<rparr>)
   \<and> spec_entry_descriptors (formats sim_camera) 7
         \<lparr>MinWidth = 640, MaxWidth = 640, StepWidth = 0,
          MinHeight = 480, MaxHeight = 480, StepHeight = 0\<rparr> = []"
proof -
  have m: "V4L2_PIX_FMT_MJPEG \<noteq> V4L2_PIX_FMT_YUYV" "7 \<noteq> V4L2_PIX_FMT_YUYV"
    by (simp_all add: pixfmt_defs)
  have e1: "spec_entry_descriptors (formats sim_camera) V4L2_PIX_FMT_MJPEG
              \<lparr>MinWidth = 640, MaxWidth = 640, StepWidth = 0,
               MinHeight = 480, MaxHeight = 480, StepHeight = 0\<rparr>
            = [\<lparr>Width = 640, Height = 480, FrameFormat = FormatMJPEG, FrameRate = 0\<rparr>]"
    by (simp add: spec_entry_descriptors_def sim_formats descriptor_def)
  have e2: "spec_entry_descriptors (formats sim_camera) 7 fs = []" for fs
    by (simp add: spec_entry_descriptors_def sim_formats)
  have e3: "spec_entry_descriptors (formats sim_camera) V4L2_PIX_FMT_YUYV
              \<lparr>MinWidth = 320, MaxWidth = 800, StepWidth = 160,
               MinHeight = 240, MaxHeight = 600, StepHeight = 120\<rparr>
            = [\<lparr>Width = 320, Height = 240, FrameFormat = FormatYUYV, FrameRate = 0\<rparr>,
               \<lparr>Width = 640, Height = 480, FrameFormat = FormatYUYV, FrameRate = 0\<rparr>,
               \<lparr>Width = 800, Height = 600, FrameFormat = FormatYUYV, FrameRate = 0\<rparr>,
               \<lparr>Width = 800, Height = 480, FrameFormat = FormatYUYV, FrameRate = 0\<rparr>]"
    by (simp add: spec_entry_descriptors_def sim_formats descriptor_def spec_accepts_def
          supportedResolutions_def)
  have "Properties sim_camera =
          Inr (concat (map (\<lambda>format. concat (map (spec_entry_descriptors (formats sim_camera) format)
                                                 (GetSupportedFrameSizes sim_webcam format)))
                         (GetSupportedFormats sim_webcam)))"
    using capabilities_enumeration [OF sim_cam] by blast
  then have p: "Properties sim_camera =
     Inr [\<lparr>Width = 640, Height = 480, FrameFormat = FormatMJPEG, FrameRate = 0\<rparr>,
          \<lparr>Width = 320, Height = 240, FrameFormat = FormatYUYV, FrameRate = 0\<rparr>,
          \<lparr>Width = 640, Height = 480, FrameFormat = FormatYUYV, FrameRate = 0\<rparr>,
          \<lparr>Width = 800, Height = 600, FrameFormat = FormatYUYV, FrameRate = 0\<rparr>,
          \<lparr>Width = 800, Height = 480, FrameFormat = FormatYUYV, FrameRate = 0\<rparr>]"
    by (simp add: sim_webcam_def sim_frame_sizes_def m e1 e2 e3)
  have s: "StepWidth \<lparr>MinWidth = 320, MaxWidth = 800, StepWidth = 160,
                       MinHeight = 240, MaxHeight = 600, StepHeight = 120\<rparr> \<noteq> (0 :: u32)"
    "StepHeight \<lparr>MinWidth = 320, MaxWidth = 800, StepWidth = 160,
                       MinHeight = 240, MaxHeight = 600, StepHeight = 120\<rparr> \<noteq> (0 :: u32)"
    by simp_all
  have d: "distinct (spec_entry_descriptors (formats sim_camera) V4L2_PIX_FMT_YUYV
                 \<lparr>MinWidth = 320, MaxWidth = 800, StepWidth = 160,
                  MinHeight = 240, MaxHeight = 600, StepHeight = 120\<rparr>)"
    using capabilities_enumeration [OF sim_cam, where format = V4L2_PIX_FMT_YUYV
            and f = FormatYUYV
            and fs = "\<lparr>MinWidth = 320, MaxWidth = 800, StepWidth = 160,
                      MinHeight = 240, MaxHeight = 600, StepHeight = 120\<rparr>"]
          sim_formats(3) s
    by blast
  have n: "spec_entry_descriptors (formats sim_camera) 7
         \<lparr>MinWidth = 640, MaxWidth = 640, StepWidth = 0,
          MinHeight = 480, MaxHeight = 480, StepHeight = 0\<rparr> = []"
    using capabilities_enumeration [OF sim_cam, where format = 7] sim_formats(2)
    by blast
  from p d n show ?thesis by blast
qed

end
